theory Spec2Isabelle
  imports Main "HOL-Library.AList"
begin

section \<open>acfunlivedb: the polling loop, its retry executor and its fetchers\<close>

text \<open>
  A shallow embedding of \<^verbatim>\<open>main.go\<close> (the variant with the polling loop). Go's
  \<^verbatim>\<open>int\<close> and \<^verbatim>\<open>int64\<close> are modelled as \<open>int\<close>; the one place where the
  64-bit range matters (\<^verbatim>\<open>strconv.Atoi\<close>, \<^verbatim>\<open>GetInt\<close>) writes the range check out.
  A Go \<^verbatim>\<open>string\<close> is a list of bytes. A panic is a value of type \<open>reason\<close>; the
  deferred \<^verbatim>\<open>recover\<close> of each fetcher turns it into an \<open>error\<close>.
\<close>

subsection \<open>Data model\<close>

record live =
  liveID :: string
  uid :: int
  name :: string
  streamName :: string
  startTime :: int
  title :: string
  duration :: int
  playbackURL :: string
  backupURL :: string
  liveCutNum :: int

text \<open>The value of \<^verbatim>\<open>new(live)\<close>: every field at its zero value.\<close>

definition new_live :: live where
  "new_live = \<lparr>liveID = [], uid = 0, name = [], streamName = [], startTime = 0, title = [],
     duration = 0, playbackURL = [], backupURL = [], liveCutNum = 0\<rparr>"

text \<open>
  What a panic carries, one constructor per \<^verbatim>\<open>checkErr\<close> and \<^verbatim>\<open>panic\<close> site of the
  two fetchers.
\<close>

datatype num_error = ErrSyntax | ErrRange

datatype reason =
    TransportFailure
  | GunzipFailure
  | ParseFailure
  | BadResult
  | CeilingExceeded
  | CutMatchCount nat
  | AtoiFailure num_error

text \<open>
  The errors of the program: the two recovered panics, an error handed back by the
  \<^verbatim>\<open>acfundanmu\<close> library, and the aggregate of \<^verbatim>\<open>runThrice\<close>, whose message
  formats the last value of its \<^verbatim>\<open>err\<close> variable.
\<close>

datatype error =
    FetchLiveListError reason
  | FetchLiveCutError reason
  | LibraryError string
  | RunThriceError "error option"
  | GetPlaybackError string error

subsection \<open>The retry executor\<close>

text \<open>
  What \<^verbatim>\<open>runThrice\<close> itself does, in order: it calls \<^verbatim>\<open>f\<close>, logs a failure, sleeps
  (seconds).
\<close>

datatype rt_event = Invoke | LogPrintf error | Sleep nat

text \<open>
  The operation \<^verbatim>\<open>f\<close> is a closure over mutable variables: a step on a state \<open>'s\<close>
  that returns the error (\<open>None\<close> is \<^verbatim>\<open>nil\<close>). An operation that does not return
  is \<open>None\<close>.
\<close>

type_synonym 's operation = "'s \<Rightarrow> (error option \<times> 's) option"

function runThrice_loop ::
  "'s operation \<Rightarrow> int \<Rightarrow> error option \<Rightarrow> 's \<Rightarrow> rt_event list
     \<Rightarrow> (error option \<times> 's \<times> rt_event list) option" where
  "runThrice_loop f retry err s log =
     (if retry < 3 then
        (case f s of
           None \<Rightarrow> None
         | Some (None, s') \<Rightarrow> Some (None, s', log @ [Invoke])
         | Some (Some e, s') \<Rightarrow>
             runThrice_loop f (retry + 1) (Some e) s'
               (log @ [Invoke, LogPrintf e, Sleep 10]))
      else Some (Some (RunThriceError err), s, log))"
  by pat_completeness auto
termination
  by (relation "measure (\<lambda>(f, retry, err, s, log). nat (3 - retry))") auto

definition runThrice :: "'s operation \<Rightarrow> 's \<Rightarrow> (error option \<times> 's \<times> rt_event list) option" where
  "runThrice f s = runThrice_loop f 0 None s []"

fun invocations :: "rt_event list \<Rightarrow> nat" where
  "invocations [] = 0"
| "invocations (Invoke # es) = Suc (invocations es)"
| "invocations (_ # es) = invocations es"

fun slept :: "rt_event list \<Rightarrow> nat" where
  "slept [] = 0"
| "slept (Sleep n # es) = n + slept es"
| "slept (_ # es) = slept es"

subsection \<open>The standard library: \<^verbatim>\<open>strconv.Atoi\<close> and the pattern \<^verbatim>\<open>/[0-9]+\<close>\<close>

definition is_digit :: "char \<Rightarrow> bool" where
  "is_digit c = (c \<in> set ''0123456789'')"

definition digit_val :: "char \<Rightarrow> nat" where
  "digit_val c = of_char c - 48"

text \<open>
  \<^verbatim>\<open>strconv.ParseUint(s, 10, 64)\<close> after its check for the empty string: it reads
  byte by byte, stops with a syntax error at the first byte that is no digit and with a
  range error (and the value \<open>2^64 - 1\<close>) as soon as the number no longer fits.
\<close>

fun ParseUint_loop :: "nat \<Rightarrow> string \<Rightarrow> nat \<times> num_error option" where
  "ParseUint_loop n [] = (n, None)"
| "ParseUint_loop n (c # cs) =
     (if \<not> is_digit c then (0, Some ErrSyntax)
      else if n \<ge> (2 ^ 64 - 1) div 10 + 1 then (2 ^ 64 - 1, Some ErrRange)
      else if n * 10 + digit_val c > 2 ^ 64 - 1 then (2 ^ 64 - 1, Some ErrRange)
      else ParseUint_loop (n * 10 + digit_val c) cs)"

text \<open>
  \<^verbatim>\<open>strconv.Atoi\<close> on a 64-bit platform (the program runs on Linux only): an
  optional sign, then \<^verbatim>\<open>ParseUint\<close>; a value outside \<open>[-2^63, 2^63 - 1]\<close> is a
  range error that returns the nearest bound.
\<close>

definition ParseInt :: "bool \<Rightarrow> string \<Rightarrow> int \<times> num_error option" where
  "ParseInt neg digits =
     (if digits = [] then (0, Some ErrSyntax)
      else
        (case ParseUint_loop 0 digits of
           (un, Some ErrSyntax) \<Rightarrow> (0, Some ErrSyntax)
         | (un, r) \<Rightarrow>
             if \<not> neg \<and> un \<ge> 2 ^ 63 then (2 ^ 63 - 1, Some ErrRange)
             else if neg \<and> un > 2 ^ 63 then (- (2 ^ 63), Some ErrRange)
             else (if neg then - int un else int un, None)))"

fun Atoi :: "string \<Rightarrow> int \<times> num_error option" where
  "Atoi [] = (0, Some ErrSyntax)"
| "Atoi (c # cs) =
     (if c = CHR ''+'' then ParseInt False cs
      else if c = CHR ''-'' then ParseInt True cs
      else ParseInt False (c # cs))"

text \<open>
  \<^verbatim>\<open>regexp.MustCompile(`/[0-9]+`).FindAllString(url, -1)\<close>: the successive,
  non-overlapping leftmost matches; each is a slash and the longest run of digits
  after it.
\<close>

function FindAllString :: "string \<Rightarrow> string list" where
  "FindAllString [] = []"
| "FindAllString (c # cs) =
     (if c = CHR ''/'' \<and> takeWhile is_digit cs \<noteq> []
      then (c # takeWhile is_digit cs) # FindAllString (dropWhile is_digit cs)
      else FindAllString cs)"
  by pat_completeness auto
termination
  by (relation "measure length") (auto simp: length_dropWhile_le less_Suc_eq_le)

subsection \<open>The \<^verbatim>\<open>fastjson\<close> view of a parsed response\<close>

text \<open>
  A parsed JSON value. A number that is written as a plain integer carries it; every
  other number literal (a fraction, an exponent) is \<open>JFraction\<close>. A Go
  \<^verbatim>\<open>*fastjson.Value\<close> is a \<open>json option\<close>, \<open>None\<close> being \<^verbatim>\<open>nil\<close>; the
  accessors below accept \<^verbatim>\<open>nil\<close>, as the library's do.
\<close>

datatype json =
    JNull
  | JBool bool
  | JNumber int
  | JFraction
  | JString string
  | JArray "json list"
  | JObject "(string \<times> json) list"

fun Get :: "json option \<Rightarrow> string list \<Rightarrow> json option" where
  "Get None keys = None"
| "Get (Some v) [] = Some v"
| "Get (Some (JObject kvs)) (key # keys) =
     (case map_of kvs key of None \<Rightarrow> None | Some v' \<Rightarrow> Get (Some v') keys)"
| "Get (Some (JArray a)) (key # keys) =
     (case Atoi key of
        (n, None) \<Rightarrow>
          if n < 0 \<or> n \<ge> int (length a) then None else Get (Some (a ! nat n)) keys
      | (n, Some err) \<Rightarrow> None)"
| "Get (Some v) (key # keys) = None"

definition Exists :: "json option \<Rightarrow> string list \<Rightarrow> bool" where
  "Exists v keys = (Get v keys \<noteq> None)"

text \<open>
  \<^verbatim>\<open>GetInt\<close> and \<^verbatim>\<open>GetInt64\<close>: 0 unless the value is a number that is an
  integer of 64 bits.
\<close>

definition GetInt64 :: "json option \<Rightarrow> string list \<Rightarrow> int" where
  "GetInt64 v keys =
     (case Get v keys of
        Some (JNumber n) \<Rightarrow> if - (2 ^ 63) \<le> n \<and> n < 2 ^ 63 then n else 0
      | _ \<Rightarrow> 0)"

definition GetInt :: "json option \<Rightarrow> string list \<Rightarrow> int" where
  "GetInt v keys = GetInt64 v keys"

definition GetStringBytes :: "json option \<Rightarrow> string list \<Rightarrow> string" where
  "GetStringBytes v keys = (case Get v keys of Some (JString s) \<Rightarrow> s | _ \<Rightarrow> [])"

definition GetArray :: "json option \<Rightarrow> string list \<Rightarrow> json list" where
  "GetArray v keys = (case Get v keys of Some (JArray a) \<Rightarrow> a | _ \<Rightarrow> [])"

text \<open>
  What one HTTP exchange gives the fetcher: \<^verbatim>\<open>client.Do\<close> fails, the gzip body
  cannot be decoded, \<^verbatim>\<open>ParseBytes\<close> fails, or a JSON value.
\<close>

datatype response = DoError | GunzipError | Unparsable | Parsed json

subsection \<open>The snapshot fetcher\<close>

text \<open>
  A Go \<^verbatim>\<open>map[string]*live\<close> is an association list with one entry per key: a lookup
  is \<open>map_of\<close>, a store is \<open>AList.update\<close>, and \<^verbatim>\<open>range\<close> visits the entries in
  the list's order (Go leaves the order open; no property below depends on it). A
  \<^verbatim>\<open>*live\<close> is modelled by the value it points to.
\<close>

type_synonym snapshot = "(string \<times> live) list"

text \<open>
  One turn of the escalation loop's body on the response to the request: a panic, the
  value \<^verbatim>\<open>v\<close> with the cursor \<^verbatim>\<open>no_more\<close> (the loop breaks), or \<^verbatim>\<open>v\<close> with
  another cursor.
\<close>

datatype page = Panicked reason | NoMore "json option" | More "json option"

definition read_page :: "response \<Rightarrow> page" where
  "read_page resp =
     (case resp of
        DoError \<Rightarrow> Panicked TransportFailure
      | GunzipError \<Rightarrow> Panicked GunzipFailure
      | Unparsable \<Rightarrow> Panicked ParseFailure
      | Parsed body \<Rightarrow>
          (let v = Get (Some body) [''channelListData''] in
           if \<not> Exists v [''result''] \<or> GetInt v [''result''] \<noteq> 0 then Panicked BadResult
           else if GetStringBytes v [''pcursor''] = ''no_more'' then NoMore v
           else More v))"

text \<open>
  \<^verbatim>\<open>for count := 10000; count < 1e9; count *= 10\<close>, with the requests made so far.
  The upstream answers a request by its page size. Nothing in the loop's header makes
  it end from every start (from 0 it would not), so not returning is \<open>None\<close>.
\<close>

partial_function (option) escalate ::
  "(int \<Rightarrow> response) \<Rightarrow> int \<Rightarrow> json option \<Rightarrow> int list
     \<Rightarrow> (int list \<times> (reason + json option)) option" where
  "escalate upstream count v reqs =
     (if count < 1000000000 then
        (case read_page (upstream count) of
           Panicked r \<Rightarrow> Some (reqs @ [count], Inl r)
         | NoMore v' \<Rightarrow> Some (reqs @ [count], Inr v')
         | More v' \<Rightarrow>
             if count = 100000000 then Some (reqs @ [count], Inl CeilingExceeded)
             else escalate upstream (count * 10) v' (reqs @ [count]))
      else Some (reqs, Inr v))"

text \<open>
  \<^verbatim>\<open>livePool.Get()\<close>: an object that was put back, with whatever its fields hold, or
  a new one.
\<close>

fun livePool_Get :: "live list \<Rightarrow> live \<times> live list" where
  "livePool_Get [] = (new_live, [])"
| "livePool_Get (l # pool) = (l, pool)"

text \<open>The ten assignments to the pooled object.\<close>

definition fill :: "live \<Rightarrow> json \<Rightarrow> live" where
  "fill l liveRoom =
     l\<lparr>liveID := GetStringBytes (Some liveRoom) [''liveId''],
       uid := GetInt (Some liveRoom) [''authorId''],
       name := GetStringBytes (Some liveRoom) [''user'', ''name''],
       streamName := GetStringBytes (Some liveRoom) [''streamName''],
       startTime := GetInt64 (Some liveRoom) [''createTime''],
       title := GetStringBytes (Some liveRoom) [''title''],
       duration := 0,
       playbackURL := [],
       backupURL := [],
       liveCutNum := 0\<rparr>"

fun build_list :: "json list \<Rightarrow> live list \<Rightarrow> snapshot \<Rightarrow> snapshot \<times> live list" where
  "build_list [] pool list = (list, pool)"
| "build_list (liveRoom # rest) pool list =
     (case livePool_Get pool of
        (l, pool') \<Rightarrow>
          build_list rest pool' (AList.update (liveID (fill l liveRoom)) (fill l liveRoom) list))"

text \<open>
  \<^verbatim>\<open>fetchLiveList\<close> returns the requests it made, the pool it leaves, and Go's two
  results \<^verbatim>\<open>(list, e)\<close>. The deferred \<^verbatim>\<open>recover\<close> sets \<^verbatim>\<open>e\<close> only: \<^verbatim>\<open>list\<close> is
  still \<^verbatim>\<open>nil\<close> when the loop panics.
\<close>

definition fetchLiveList ::
  "(int \<Rightarrow> response) \<Rightarrow> live list \<Rightarrow> (int list \<times> live list \<times> snapshot \<times> error option) option" where
  "fetchLiveList upstream pool =
     (case escalate upstream 10000 None [] of
        None \<Rightarrow> None
      | Some (reqs, Inl r) \<Rightarrow> Some (reqs, pool, [], Some (FetchLiveListError r))
      | Some (reqs, Inr v) \<Rightarrow>
          (case build_list (GetArray v [''liveList'']) pool [] of
             (list, pool') \<Rightarrow> Some (reqs, pool', list, None)))"

subsection \<open>The cut-number fetcher\<close>

text \<open>
  The body of \<^verbatim>\<open>fetchLiveCut\<close> on the response to its request: \<open>Inl\<close> is a panic,
  with the value the named result \<^verbatim>\<open>num\<close> holds at that moment; \<open>Inr\<close> is a
  \<^verbatim>\<open>return\<close>.
\<close>

definition fetchLiveCut_body :: "response \<Rightarrow> (reason \<times> int) + (int \<times> error option)" where
  "fetchLiveCut_body resp =
     (case resp of
        DoError \<Rightarrow> Inl (TransportFailure, 0)
      | GunzipError \<Rightarrow> Inl (GunzipFailure, 0)
      | Unparsable \<Rightarrow> Inl (ParseFailure, 0)
      | Parsed body \<Rightarrow>
          (let v = Some body in
           if \<not> Exists v [''result''] \<or> GetInt v [''result''] \<noteq> 0 then Inl (BadResult, 0)
           else if GetInt v [''liveCutStatus''] \<noteq> 1 then Inr (0, None)
           else
             (case FindAllString (GetStringBytes v [''liveCutUrl'']) of
                [m] \<Rightarrow>
                  (case Atoi (drop 1 m) of
                     (num, Some err) \<Rightarrow> Inl (AtoiFailure err, num)
                   | (num, None) \<Rightarrow> Inr (num, None))
              | nums \<Rightarrow> Inl (CutMatchCount (length nums), 0))))"

text \<open>The deferred \<^verbatim>\<open>recover\<close>: \<^verbatim>\<open>num = 0\<close> and the error.\<close>

definition fetchLiveCut :: "(int \<Rightarrow> string \<Rightarrow> response) \<Rightarrow> int \<Rightarrow> string \<Rightarrow> int \<times> error option" where
  "fetchLiveCut upstream uid' liveID' =
     (case fetchLiveCut_body (upstream uid' liveID') of
        Inl (r, num) \<Rightarrow> (0, Some (FetchLiveCutError r))
      | Inr res \<Rightarrow> res)"

subsection \<open>Events\<close>

text \<open>
  What the loop and its goroutines do to the outside, in order. The persistence
  functions \<^verbatim>\<open>insert\<close>, \<^verbatim>\<open>updateLiveCutNum\<close> and \<^verbatim>\<open>updateLiveDuration\<close> are
  called here and defined elsewhere: a call is an event. A \<^verbatim>\<open>go\<close> statement is the
  event \<open>Go\<close> of the task it starts; what the task does is \<open>liveCutTask\<close> and
  \<open>summaryTask\<close> below.
\<close>

datatype task = LiveCutTask int string | SummaryTask live

datatype message =
    TooManyListErrors
  | CutAbandoned int string
  | SummaryAbandoned live
  | ZeroDuration live
  | Unclassified string

datatype event =
    Retry rt_event
  | Println live
  | Log message
  | Insert live
  | UpdateLiveCutNum string int
  | UpdateLiveDuration string int
  | Go task
  | PoolPut live
  | SleepFor nat
  | NilDereference

subsection \<open>Playback lookup\<close>

text \<open>
  The fields of \<^verbatim>\<open>acfundanmu.Playback\<close> and \<^verbatim>\<open>acfundanmu.Summary\<close> that the
  program reads. The library's calls return Go's pair of a pointer and an error; its
  method \<^verbatim>\<open>Distinguish\<close> is a parameter.
\<close>

record Playback =
  URL :: string
  BackupURL :: string

record Summary =
  Duration :: int

definition GetPlayback_op ::
  "(nat \<Rightarrow> string \<Rightarrow> Playback option \<times> error option) \<Rightarrow> string
     \<Rightarrow> (nat \<times> Playback option) operation" where
  "GetPlayback_op lib liveID' s =
     (case s of (n, playback) \<Rightarrow>
        (case lib n liveID' of (playback', err) \<Rightarrow> Some (err, (Suc n, playback'))))"

text \<open>
  \<^verbatim>\<open>getPlayback\<close>: the events, and either a panic (\<open>Inl\<close>: \<^verbatim>\<open>playback.URL\<close> on
  a \<^verbatim>\<open>nil\<close> pointer) or Go's two results.
\<close>

definition getPlayback ::
  "(nat \<Rightarrow> string \<Rightarrow> Playback option \<times> error option) \<Rightarrow> (Playback \<Rightarrow> string \<times> string)
     \<Rightarrow> string \<Rightarrow> (event list \<times> (unit + Playback option \<times> error option)) option" where
  "getPlayback lib Distinguish liveID' =
     (case runThrice (GetPlayback_op lib liveID') (0, None) of
        None \<Rightarrow> None
      | Some (Some err, s, log) \<Rightarrow>
          Some (map Retry log, Inr (None, Some (GetPlaybackError liveID' err)))
      | Some (None, (n, None), log) \<Rightarrow> Some (map Retry log @ [NilDereference], Inl ())
      | Some (None, (n, Some playback), log) \<Rightarrow>
          (if URL playback \<noteq> [] then
             (case Distinguish playback of
                (aliURL, txURL) \<Rightarrow>
                  if aliURL \<noteq> [] \<and> txURL \<noteq> [] then
                    Some (map Retry log,
                      Inr (Some (playback\<lparr>URL := aliURL, BackupURL := txURL\<rparr>), None))
                  else
                    Some (map Retry log @ [Log (Unclassified liveID')],
                      Inr (Some playback, None)))
           else Some (map Retry log, Inr (Some playback, None))))"

subsection \<open>The enrichment goroutines\<close>

text \<open>
  The upstream of a task answers its \<open>n\<close>-th attempt. Each task is the list of its
  events; \<open>None\<close> when an attempt does not return.
\<close>

definition fetchLiveCut_op ::
  "(nat \<Rightarrow> int \<Rightarrow> string \<Rightarrow> response) \<Rightarrow> int \<Rightarrow> string \<Rightarrow> (nat \<times> int) operation" where
  "fetchLiveCut_op upstream uid' liveID' s =
     (case s of (n, num) \<Rightarrow>
        (case fetchLiveCut (upstream n) uid' liveID' of (num', err) \<Rightarrow> Some (err, (Suc n, num'))))"

definition liveCutTask ::
  "(nat \<Rightarrow> int \<Rightarrow> string \<Rightarrow> response) \<Rightarrow> int \<Rightarrow> string \<Rightarrow> event list option" where
  "liveCutTask upstream uid' liveID' =
     (case runThrice (fetchLiveCut_op upstream uid' liveID') (0, 0) of
        None \<Rightarrow> None
      | Some (Some err, s, log) \<Rightarrow> Some (map Retry log @ [Log (CutAbandoned uid' liveID')])
      | Some (None, (n, num), log) \<Rightarrow> Some (map Retry log @ [UpdateLiveCutNum liveID' num]))"

definition GetSummary_op ::
  "(nat \<Rightarrow> string \<Rightarrow> Summary option \<times> error option) \<Rightarrow> live
     \<Rightarrow> (nat \<times> Summary option) operation" where
  "GetSummary_op lib l s =
     (case s of (n, summary) \<Rightarrow>
        (case lib n (liveID l) of (summary', err) \<Rightarrow> Some (err, (Suc n, summary'))))"

text \<open>
  The deferred \<^verbatim>\<open>livePool.Put(l)\<close> is the last event on every path, also when
  \<^verbatim>\<open>summary.Duration\<close> panics on a \<^verbatim>\<open>nil\<close> pointer.
\<close>

definition summaryTask ::
  "(nat \<Rightarrow> string \<Rightarrow> Summary option \<times> error option) \<Rightarrow> live \<Rightarrow> event list option" where
  "summaryTask lib l =
     (case runThrice (GetSummary_op lib l) (0, None) of
        None \<Rightarrow> None
      | Some (Some err, s, log) \<Rightarrow>
          Some (SleepFor 10 # map Retry log @ [Log (SummaryAbandoned l), PoolPut l])
      | Some (None, (n, None), log) \<Rightarrow>
          Some (SleepFor 10 # map Retry log @ [NilDereference, PoolPut l])
      | Some (None, (n, Some summary), log) \<Rightarrow>
          (if Duration summary = 0 then
             Some (SleepFor 10 # map Retry log @ [Log (ZeroDuration l), PoolPut l])
           else
             Some (SleepFor 10 # map Retry log @
               [Insert l, UpdateLiveDuration (liveID l) (Duration summary), PoolPut l])))"

subsection \<open>The polling loop\<close>

record state =
  oldList :: snapshot
  newList :: snapshot
  livePool :: "live list"
  listCalls :: nat
  trace :: "event list"

definition emit :: "event list \<Rightarrow> state \<Rightarrow> state" where
  "emit es st = st\<lparr>trace := trace st @ es\<rparr>"

text \<open>
  The closure \<^verbatim>\<open>newList, err = fetchLiveList(); return err\<close>. The upstream answers by
  the number of the call and the page size.
\<close>

definition fetchLiveList_op :: "(nat \<Rightarrow> int \<Rightarrow> response) \<Rightarrow> state operation" where
  "fetchLiveList_op upstream st =
     (case fetchLiveList (upstream (listCalls st)) (livePool st) of
        None \<Rightarrow> None
      | Some (reqs, pool', list, err) \<Rightarrow>
          Some (err, st\<lparr>newList := list, livePool := pool', listCalls := Suc (listCalls st)\<rparr>))"

text \<open>The body of \<^verbatim>\<open>for _, l := range newList\<close>.\<close>

definition started_body :: "live \<Rightarrow> state \<Rightarrow> state" where
  "started_body l st =
     (if map_of (oldList st) (liveID l) = None then
        (if uid l \<noteq> 646973 then st
         else emit [Println l, Insert l, Go (LiveCutTask (uid l) (liveID l))] st)
      else st)"

text \<open>The body of \<^verbatim>\<open>for _, l := range oldList\<close>.\<close>

definition ended_body :: "live \<Rightarrow> state \<Rightarrow> state" where
  "ended_body l st =
     (if map_of (newList st) (liveID l) = None then
        (if uid l \<noteq> 646973 then st
         else emit [Go (SummaryTask l)] st)
      else emit [PoolPut l] (st\<lparr>livePool := l # livePool st\<rparr>))"

definition diff_loops :: "state \<Rightarrow> state" where
  "diff_loops st =
     (let st1 = fold started_body (map snd (newList st)) st
      in fold ended_body (map snd (oldList st1)) st1)"

text \<open>
  One turn of the \<^verbatim>\<open>default\<close> branch. \<open>Returned\<close>: \<^verbatim>\<open>main\<close> returns, which ends
  the process.
\<close>

datatype status = Continue | Returned

definition iteration :: "(nat \<Rightarrow> int \<Rightarrow> response) \<Rightarrow> state \<Rightarrow> (status \<times> state) option" where
  "iteration upstream st =
     (case runThrice (fetchLiveList_op upstream) (st\<lparr>newList := []\<rparr>) of
        None \<Rightarrow> None
      | Some (Some err, st1, log) \<Rightarrow>
          Some (Returned, emit (map Retry log @ [Log TooManyListErrors]) st1)
      | Some (None, st1, log) \<Rightarrow>
          (let st2 = diff_loops (emit (map Retry log) st1)
           in Some (Continue, emit [SleepFor 20] (st2\<lparr>oldList := newList st2\<rparr>))))"

text \<open>
  \<^verbatim>\<open>for { select { case <-childCtx.Done(): break Loop; default: ... } }\<close>. Whether the
  context is cancelled when the \<open>i\<close>-th turn starts is \<open>cancelled i\<close>. The loop may
  run forever: \<open>None\<close>.
\<close>

partial_function (option) poll_loop ::
  "(nat \<Rightarrow> int \<Rightarrow> response) \<Rightarrow> (nat \<Rightarrow> bool) \<Rightarrow> nat \<Rightarrow> state \<Rightarrow> state option" where
  "poll_loop upstream cancelled i st =
     (if cancelled i then Some st
      else
        (case iteration upstream st of
           None \<Rightarrow> None
         | Some (Returned, st') \<Rightarrow> Some st'
         | Some (Continue, st') \<Rightarrow> poll_loop upstream cancelled (Suc i) st'))"

subsection \<open>The two sets of the diff\<close>

text \<open>
  The sessions for which the first loop takes the branch \<^verbatim>\<open>!ok\<close>, those for which the
  second loop does, and those for which the second loop takes its \<^verbatim>\<open>else\<close>.
\<close>

definition started :: "snapshot \<Rightarrow> snapshot \<Rightarrow> live list" where
  "started previous current = [l \<leftarrow> map snd current. map_of previous (liveID l) = None]"

definition ended :: "snapshot \<Rightarrow> snapshot \<Rightarrow> live list" where
  "ended previous current = [l \<leftarrow> map snd previous. map_of current (liveID l) = None]"

definition continuing :: "snapshot \<Rightarrow> snapshot \<Rightarrow> live list" where
  "continuing previous current = [l \<leftarrow> map snd previous. map_of current (liveID l) \<noteq> None]"

text \<open>Every entry of a map that \<^verbatim>\<open>fetchLiveList\<close> builds is stored under its own id.\<close>

definition keyed :: "snapshot \<Rightarrow> bool" where
  "keyed m = list_all (\<lambda>(k, l). liveID l = k) m"

subsection \<open>Readings of a run\<close>

text \<open>The seconds \<^verbatim>\<open>runThrice\<close> sleeps in one run.\<close>

definition elapsed_backoff :: "'s operation \<Rightarrow> 's \<Rightarrow> nat option" where
  "elapsed_backoff f s = map_option (slept \<circ> snd \<circ> snd) (runThrice f s)"

text \<open>What the escalation returns, by the pages the upstream serves.\<close>

definition outcome :: "page \<Rightarrow> reason + json option" where
  "outcome p = (case p of Panicked r \<Rightarrow> Inl r | NoMore v \<Rightarrow> Inr v | More v \<Rightarrow> Inl CeilingExceeded)"

definition is_More :: "page \<Rightarrow> bool" where
  "is_More p = (case p of More v \<Rightarrow> True | _ \<Rightarrow> False)"

text \<open>
  The events of one session in the first loop's branch \<^verbatim>\<open>!ok\<close>, of one session in the
  second loop, and of both loops together.
\<close>

definition on_started :: "live \<Rightarrow> event list" where
  "on_started l =
     (if uid l \<noteq> 646973 then []
      else [Println l, Insert l, Go (LiveCutTask (uid l) (liveID l))])"

definition on_previous :: "snapshot \<Rightarrow> live \<Rightarrow> event list" where
  "on_previous current l =
     (if map_of current (liveID l) = None then
        (if uid l \<noteq> 646973 then [] else [Go (SummaryTask l)])
      else [PoolPut l])"

definition diff_events :: "snapshot \<Rightarrow> snapshot \<Rightarrow> event list" where
  "diff_events previous current =
     concat (map on_started (started previous current)) @
     concat (map (on_previous current) (map snd previous))"

text \<open>The calls of the persistence functions, and the \<^verbatim>\<open>go\<close> statements.\<close>

fun writes :: "event \<Rightarrow> bool" where
  "writes (Insert l) = True"
| "writes (UpdateLiveCutNum i n) = True"
| "writes (UpdateLiveDuration i d) = True"
| "writes _ = False"

fun spawns :: "event \<Rightarrow> bool" where
  "spawns (Go t) = True"
| "spawns _ = False"

text \<open>
  The numeric runs of the claim about the cut number, in its own words: the maximal
  runs of digits of a string, whatever stands before them. The program counts the
  matches of \<open>FindAllString\<close> instead.
\<close>

function numeric_runs :: "string \<Rightarrow> string list" where
  "numeric_runs [] = []"
| "numeric_runs (c # cs) =
     (if is_digit c
      then (c # takeWhile is_digit cs) # numeric_runs (dropWhile is_digit cs)
      else numeric_runs cs)"
  by pat_completeness auto
termination
  by (relation "measure length") (auto simp: length_dropWhile_le less_Suc_eq_le)

subsection \<open>Concrete upstreams, libraries and states\<close>

text \<open>An operation that plays a script of results, one per call.\<close>

fun scripted :: "error option list operation" where
  "scripted [] = None"
| "scripted (r # rs) = Some (r, rs)"

text \<open>A cut-info response with the given result code, status and URL.\<close>

definition cut_info :: "int \<Rightarrow> int \<Rightarrow> string \<Rightarrow> response" where
  "cut_info result status url =
     Parsed (JObject [(''result'', JNumber result), (''liveCutStatus'', JNumber status),
       (''liveCutUrl'', JString url)])"

text \<open>Responses of the listing endpoint, a session of the list and a pooled object.\<close>

definition list_page :: "int \<Rightarrow> string \<Rightarrow> json list \<Rightarrow> response" where
  "list_page result pcursor rooms =
     Parsed (JObject [(''channelListData'',
       JObject [(''result'', JNumber result), (''pcursor'', JString pcursor),
         (''liveList'', JArray rooms)])])"

definition room :: "string \<Rightarrow> int \<Rightarrow> json" where
  "room ident author =
     JObject [(''liveId'', JString ident), (''authorId'', JNumber author),
       (''user'', JObject [(''name'', JString ''anchor'')]), (''streamName'', JString ''stream''),
       (''createTime'', JNumber 1650000000000), (''title'', JString ''title'')]"

definition session :: "string \<Rightarrow> int \<Rightarrow> live" where
  "session ident author =
     \<lparr>liveID = ident, uid = author, name = ''anchor'', streamName = ''stream'',
      startTime = 1650000000000, title = ''title'', duration = 0, playbackURL = [],
      backupURL = [], liveCutNum = 0\<rparr>"

definition second_page :: "int \<Rightarrow> response" where
  "second_page count =
     (if count = 10000 then list_page 0 ''1'' [room ''L1'' 646973]
      else list_page 0 ''no_more'' [room ''L1'' 646973, room ''L2'' 7])"

definition stale :: live where
  "stale = \<lparr>liveID = ''L0'', uid = 646973, name = ''old'', streamName = ''old'',
      startTime = 1, title = ''old'', duration = 600000, playbackURL = ''http://old'',
      backupURL = ''http://old.backup'', liveCutNum = 42\<rparr>"

text \<open>Two consecutive snapshots and the state between the fetch and the two loops.\<close>

definition previous_snapshot :: snapshot where
  "previous_snapshot = [(''A'', session ''A'' 646973), (''B'', session ''B'' 7)]"

definition current_snapshot :: snapshot where
  "current_snapshot = [(''B'', session ''B'' 7), (''C'', session ''C'' 646973)]"

definition diff_state :: state where
  "diff_state =
     \<lparr>oldList = previous_snapshot, newList = current_snapshot, livePool = [],
      listCalls = 1, trace = []\<rparr>"

text \<open>The state before a turn: the stored snapshot holds one session of another owner.\<close>

definition watch_state :: state where
  "watch_state =
     \<lparr>oldList = [(''L0'', session ''L0'' 7)], newList = [], livePool = [],
      listCalls = 0, trace = []\<rparr>"

text \<open>An upstream that is down, and a library whose summary lookup times out.\<close>

definition down :: "nat \<Rightarrow> int \<Rightarrow> response" where
  "down n count = DoError"

definition cut_down :: "nat \<Rightarrow> int \<Rightarrow> string \<Rightarrow> response" where
  "cut_down n u i = DoError"

definition summary_down :: "nat \<Rightarrow> string \<Rightarrow> Summary option \<times> error option" where
  "summary_down n i = (None, Some (LibraryError ''timeout''))"

definition never :: "nat \<Rightarrow> bool" where
  "never i = False"

text \<open>
  A library whose summary lookup fails twice and then reports the given duration, and
  one whose playback lookup returns the given playback at once; three classifiers.
\<close>

definition summary_late :: "int \<Rightarrow> nat \<Rightarrow> string \<Rightarrow> Summary option \<times> error option" where
  "summary_late d n i =
     (if n < 2 then (None, Some (LibraryError ''timeout'')) else (Some \<lparr>Duration = d\<rparr>, None))"

definition found_playback :: "Playback \<Rightarrow> nat \<Rightarrow> string \<Rightarrow> Playback option \<times> error option" where
  "found_playback p n i = (Some p, None)"

definition no_provider :: "Playback \<Rightarrow> string \<times> string" where
  "no_provider p = ([], [])"

definition only_primary :: "Playback \<Rightarrow> string \<times> string" where
  "only_primary p = (URL p, [])"

definition swapped_providers :: "Playback \<Rightarrow> string \<times> string" where
  "swapped_providers p = (BackupURL p, URL p)"

text \<open>
  An upstream of the cut-info endpoint that gives one answer to every request, and one
  that is ready at every attempt.
\<close>

definition answer :: "response \<Rightarrow> int \<Rightarrow> string \<Rightarrow> response" where
  "answer resp u i = resp"

definition cut_up :: "nat \<Rightarrow> int \<Rightarrow> string \<Rightarrow> response" where
  "cut_up n u i = cut_info 0 1 ''https://host/12345/bar''"

text \<open>
  A listing in which the session \<open>L1\<close> is live at the first call, gone at the second
  and live again from the third; the state in which \<^verbatim>\<open>main\<close> enters its loop; a
  context that is cancelled when the \<open>n\<close>-th turn would start.
\<close>

definition flapping :: "nat \<Rightarrow> int \<Rightarrow> response" where
  "flapping n count =
     (if n = 1 then list_page 0 ''no_more'' []
      else list_page 0 ''no_more'' [room ''L1'' 646973])"

definition first_state :: state where
  "first_state = \<lparr>oldList = [], newList = [], livePool = [], listCalls = 0, trace = []\<rparr>"

definition cancelled_from :: "nat \<Rightarrow> nat \<Rightarrow> bool" where
  "cancelled_from n i = (n \<le> i)"

section \<open>Properties\<close>

subsection \<open>The retry executor\<close>

declare runThrice_loop.simps [simp del]

lemma invocations_append: "invocations (xs @ ys) = invocations xs + invocations ys"
  by (induction xs rule: invocations.induct) auto

lemma slept_append: "slept (xs @ ys) = slept xs + slept ys"
  by (induction xs rule: slept.induct) auto

lemma runThrice_loop_bounds:
  "runThrice_loop f retry err s log = Some (r, s', log') \<Longrightarrow>
     invocations log' \<le> invocations log + nat (3 - retry) \<and>
     slept log' \<le> slept log + 10 * nat (3 - retry)"
proof (induction f retry err s log rule: runThrice_loop.induct)
  case (1 f retry err s log)
  show ?case
  proof (cases "retry < 3")
    case False
    with "1.prems" show ?thesis
      by (simp add: runThrice_loop.simps [of f retry])
  next
    case True
    note lt = this
    show ?thesis
    proof (cases "f s")
      case None
      with lt "1.prems" show ?thesis
        by (simp add: runThrice_loop.simps [of f retry])
    next
      case (Some p)
      obtain eo s1 where p: "p = (eo, s1)" by (cases p)
      show ?thesis
      proof (cases eo)
        case None
        with lt Some p "1.prems" show ?thesis
          by (auto simp add: runThrice_loop.simps [of f retry] invocations_append slept_append)
      next
        case (Some e)
        with lt \<open>f s = Some p\<close> p "1.prems"
        have rec: "runThrice_loop f (retry + 1) (Some e) s1
                 (log @ [Invoke, LogPrintf e, Sleep 10]) = Some (r, s', log')"
          by (simp add: runThrice_loop.simps [of f retry])
        from "1.IH" [OF lt \<open>f s = Some p\<close> p [symmetric] Some rec] lt
        show ?thesis
          by (auto simp add: invocations_append slept_append)
      qed
    qed
  qed
qed

lemma runThrice_fail_fail_ok:
  assumes "f s0 = Some (Some e1, s1)" "f s1 = Some (Some e2, s2)" "f s2 = Some (None, s3)"
  shows "runThrice f s0 = Some (None, s3,
           [Invoke, LogPrintf e1, Sleep 10, Invoke, LogPrintf e2, Sleep 10, Invoke])"
  using assms by (simp add: runThrice_def runThrice_loop.simps)

lemma runThrice_fail_thrice:
  assumes "f s0 = Some (Some e1, s1)" "f s1 = Some (Some e2, s2)" "f s2 = Some (Some e3, s3)"
  shows "runThrice f s0 = Some (Some (RunThriceError (Some e3)), s3,
           [Invoke, LogPrintf e1, Sleep 10, Invoke, LogPrintf e2, Sleep 10,
            Invoke, LogPrintf e3, Sleep 10])"
  using assms by (simp add: runThrice_def runThrice_loop.simps)

lemma runThrice_loop_returns:
  "(\<And>s. f s \<noteq> None) \<Longrightarrow> runThrice_loop f retry err s log \<noteq> None"
proof (induction f retry err s log rule: runThrice_loop.induct)
  case (1 f retry err s log)
  show ?case
  proof (cases "retry < 3")
    case False
    then show ?thesis by (simp add: runThrice_loop.simps [of f retry])
  next
    case True
    from "1.prems" [of s] obtain eo s1 where fs: "f s = Some (eo, s1)"
      by (cases "f s") auto
    show ?thesis
    proof (cases eo)
      case None
      with True fs show ?thesis by (simp add: runThrice_loop.simps [of f retry])
    next
      case (Some e)
      from "1.IH" [OF True fs refl Some "1.prems"] True fs Some show ?thesis
        by (simp add: runThrice_loop.simps [of f retry])
    qed
  qed
qed

text \<open>
  C2, as the code has it. \<^verbatim>\<open>runThrice\<close> calls the operation at most 3 times and
  sleeps at most 30 seconds, whatever the operation does. An operation that fails
  twice and then succeeds gives \<^verbatim>\<open>nil\<close> after exactly 3 calls and two sleeps of 10
  seconds. An operation that fails three times gives the aggregate error that names
  the third failure, after exactly 3 calls and three sleeps of 10 seconds: the loop
  sleeps after every failed call, the last one too, so the backoff is 30 seconds, not 20.
\<close>

theorem runThrice_three_attempts:
  "(runThrice f s = Some (r, s', log) \<longrightarrow> invocations log \<le> 3 \<and> slept log \<le> 30) \<and>
   (g t0 = Some (Some e1, t1) \<and> g t1 = Some (Some e2, t2) \<and> g t2 = Some (None, t3) \<longrightarrow>
      (\<exists>log. runThrice g t0 = Some (None, t3, log) \<and> invocations log = 3 \<and> slept log = 20)) \<and>
   (h u0 = Some (Some d1, u1) \<and> h u1 = Some (Some d2, u2) \<and> h u2 = Some (Some d3, u3) \<longrightarrow>
      (\<exists>log. runThrice h u0 = Some (Some (RunThriceError (Some d3)), u3, log) \<and>
         invocations log = 3 \<and> slept log = 30))"
proof (intro conjI impI)
  assume "runThrice f s = Some (r, s', log)"
  then have "runThrice_loop f 0 None s [] = Some (r, s', log)"
    by (simp add: runThrice_def)
  from runThrice_loop_bounds [OF this] show "invocations log \<le> 3" and "slept log \<le> 30"
    by simp_all
next
  assume "g t0 = Some (Some e1, t1) \<and> g t1 = Some (Some e2, t2) \<and> g t2 = Some (None, t3)"
  then show "\<exists>log. runThrice g t0 = Some (None, t3, log) \<and> invocations log = 3 \<and> slept log = 20"
    by (simp add: runThrice_fail_fail_ok)
next
  assume "h u0 = Some (Some d1, u1) \<and> h u1 = Some (Some d2, u2) \<and> h u2 = Some (Some d3, u3)"
  then show "\<exists>log. runThrice h u0 = Some (Some (RunThriceError (Some d3)), u3, log) \<and>
      invocations log = 3 \<and> slept log = 30"
    by (simp add: runThrice_fail_thrice)
qed

theorem runThrice_three_attempts_witness:
  "runThrice scripted [None] = Some (None, [], [Invoke]) \<and>
   invocations [Invoke] \<le> 3 \<and> slept [Invoke] \<le> 30 \<and>
   (\<exists>log. runThrice scripted
        [Some (LibraryError ''timeout''), Some (LibraryError ''reset''), None] =
          Some (None, [], log) \<and> invocations log = 3 \<and> slept log = 20) \<and>
   (\<exists>log. runThrice scripted
        [Some (LibraryError ''timeout''), Some (LibraryError ''reset''),
         Some (LibraryError ''refused'')] =
          Some (Some (RunThriceError (Some (LibraryError ''refused''))), [], log) \<and>
        invocations log = 3 \<and> slept log = 30)"
proof -
  have r: "runThrice scripted [None] = Some (None, [], [Invoke])"
    by (simp add: runThrice_def runThrice_loop.simps)
  from r runThrice_three_attempts
    [of scripted "[None]" None "[]" "[Invoke]"
        scripted "[Some (LibraryError ''timeout''), Some (LibraryError ''reset''), None]"
        "LibraryError ''timeout''" "[Some (LibraryError ''reset''), None]"
        "LibraryError ''reset''" "[None]" "[]"
        scripted "[Some (LibraryError ''timeout''), Some (LibraryError ''reset''),
                   Some (LibraryError ''refused'')]"
        "LibraryError ''timeout''"
        "[Some (LibraryError ''reset''), Some (LibraryError ''refused'')]"
        "LibraryError ''reset''" "[Some (LibraryError ''refused'')]"
        "LibraryError ''refused''" "[]"]
  show ?thesis by simp
qed

text \<open>
  The claim's 20 seconds fail on an operation that fails at every call: the run sleeps
  30 seconds.
\<close>

theorem runThrice_backoff_counterexample:
  "elapsed_backoff scripted
     [Some (LibraryError ''down''), Some (LibraryError ''down''), Some (LibraryError ''down'')]
     = Some 30 \<and>
   elapsed_backoff scripted
     [Some (LibraryError ''down''), Some (LibraryError ''down''), Some (LibraryError ''down'')]
     \<noteq> Some 20"
  by (simp add: elapsed_backoff_def runThrice_def runThrice_loop.simps)

subsection \<open>The cut-number fetcher\<close>

lemmas json_reads = Exists_def GetInt_def GetInt64_def GetStringBytes_def GetArray_def
lemmas digit_reads = ParseInt_def is_digit_def digit_val_def

lemma fetchLiveCut_accepted:
  assumes "Exists (Some body) [''result'']" and "GetInt (Some body) [''result''] = 0"
  shows "fetchLiveCut_body (Parsed body) =
     (if GetInt (Some body) [''liveCutStatus''] \<noteq> 1 then Inr (0, None)
      else
        (case FindAllString (GetStringBytes (Some body) [''liveCutUrl'']) of
           [m] \<Rightarrow>
             (case Atoi (drop 1 m) of
                (num, Some err) \<Rightarrow> Inl (AtoiFailure err, num)
              | (num, None) \<Rightarrow> Inr (num, None))
         | nums \<Rightarrow> Inl (CutMatchCount (length nums), 0)))"
  using assms by (simp add: fetchLiveCut_body_def)

lemma fetchLiveCut_refused:
  assumes "\<not> Exists (Some body) [''result''] \<or> GetInt (Some body) [''result''] \<noteq> 0"
  shows "fetchLiveCut_body (Parsed body) = Inl (BadResult, 0)"
  using assms by (auto simp add: fetchLiveCut_body_def)

text \<open>Every match is a slash and a numeric run; a run that no slash precedes is no match.\<close>

lemma numeric_runs_digit:
  "takeWhile is_digit cs \<noteq> [] \<Longrightarrow>
     numeric_runs cs = takeWhile is_digit cs # numeric_runs (dropWhile is_digit cs)"
  by (cases cs) (auto split: if_splits)

lemma numeric_runs_after_digits:
  "set (numeric_runs (dropWhile is_digit s)) \<subseteq> set (numeric_runs s)"
  by (cases s) auto

lemma matches_follow_slash:
  "set (FindAllString s) \<subseteq> (#) CHR ''/'' ` set (numeric_runs (dropWhile is_digit s))"
proof (induction s rule: FindAllString.induct)
  case 1
  then show ?case by simp
next
  case (2 c cs)
  show ?case
  proof (cases "c = CHR ''/'' \<and> takeWhile is_digit cs \<noteq> []")
    case True
    then have nd: "\<not> is_digit c"
      by (simp add: is_digit_def)
    from True "2.IH"(1)
    have "set (FindAllString (dropWhile is_digit cs)) \<subseteq>
        (#) CHR ''/'' ` set (numeric_runs (dropWhile is_digit cs))"
      by simp
    with True nd show ?thesis
      by (auto simp add: numeric_runs_digit)
  next
    case False
    with "2.IH"(2) have ih: "set (FindAllString cs) \<subseteq>
        (#) CHR ''/'' ` set (numeric_runs (dropWhile is_digit cs))"
      by simp
    show ?thesis
    proof (cases "is_digit c")
      case True
      with False ih show ?thesis by auto
    next
      case nd: False
      from numeric_runs_after_digits [of cs] ih
      have "set (FindAllString cs) \<subseteq> (#) CHR ''/'' ` set (numeric_runs cs)"
        by blast
      with False nd show ?thesis by auto
    qed
  qed
qed

lemma matches_are_runs:
  "set (FindAllString s) \<subseteq> (#) CHR ''/'' ` set (numeric_runs s)"
  using matches_follow_slash [of s] numeric_runs_after_digits [of s] by blast

text \<open>
  C4, as the code has it. A response with status 1 (ready) is first checked for its
  result: when the result is missing or not 0, \<^verbatim>\<open>fetchLiveCut\<close> returns the recovered
  error and number 0, whatever the URL. When the result is 0, the number comes from the
  matches of \<^verbatim>\<open>/[0-9]+\<close> in the URL, a slash and the digits after it: exactly one
  match whose digits \<^verbatim>\<open>Atoi\<close> reads gives that number and no error; any other count
  of matches, zero or two or more, is an error return with number 0; the URL
  \<^verbatim>\<open>.../foo/12345/bar\<close> gives 12345. Digits that no slash precedes are no match.
\<close>

theorem fetchLiveCut_ready:
  assumes "upstream uid' liveID' = Parsed body"
    and "GetInt (Some body) [''liveCutStatus''] = 1"
  shows
    "(\<not> Exists (Some body) [''result''] \<or> GetInt (Some body) [''result''] \<noteq> 0 \<longrightarrow>
        fetchLiveCut upstream uid' liveID' = (0, Some (FetchLiveCutError BadResult))) \<and>
     (Exists (Some body) [''result''] \<and> GetInt (Some body) [''result''] = 0 \<longrightarrow>
        (\<forall>m n. FindAllString (GetStringBytes (Some body) [''liveCutUrl'']) = [m] \<and>
              Atoi (drop 1 m) = (n, None) \<longrightarrow>
            fetchLiveCut upstream uid' liveID' = (n, None)) \<and>
        (length (FindAllString (GetStringBytes (Some body) [''liveCutUrl''])) \<noteq> 1 \<longrightarrow>
            fetchLiveCut upstream uid' liveID' =
              (0, Some (FetchLiveCutError (CutMatchCount
                 (length (FindAllString (GetStringBytes (Some body) [''liveCutUrl'']))))))) \<and>
        (GetStringBytes (Some body) [''liveCutUrl''] = ''.../foo/12345/bar'' \<longrightarrow>
            fetchLiveCut upstream uid' liveID' = (12345, None)))"
proof (intro conjI impI allI)
  assume "\<not> Exists (Some body) [''result''] \<or> GetInt (Some body) [''result''] \<noteq> 0"
  from fetchLiveCut_refused [OF this]
  show "fetchLiveCut upstream uid' liveID' = (0, Some (FetchLiveCutError BadResult))"
    by (simp add: fetchLiveCut_def assms(1))
next
  fix m n
  assume acc: "Exists (Some body) [''result''] \<and> GetInt (Some body) [''result''] = 0"
    and "FindAllString (GetStringBytes (Some body) [''liveCutUrl'']) = [m] \<and>
          Atoi (drop 1 m) = (n, None)"
  with assms(2) show "fetchLiveCut upstream uid' liveID' = (n, None)"
    by (simp add: fetchLiveCut_def assms(1) fetchLiveCut_accepted)
next
  assume acc: "Exists (Some body) [''result''] \<and> GetInt (Some body) [''result''] = 0"
    and "length (FindAllString (GetStringBytes (Some body) [''liveCutUrl''])) \<noteq> 1"
  with assms(2) show "fetchLiveCut upstream uid' liveID' =
      (0, Some (FetchLiveCutError (CutMatchCount
         (length (FindAllString (GetStringBytes (Some body) [''liveCutUrl'']))))))"
    by (auto simp add: fetchLiveCut_def assms(1) fetchLiveCut_accepted split: list.splits)
next
  assume acc: "Exists (Some body) [''result''] \<and> GetInt (Some body) [''result''] = 0"
    and "GetStringBytes (Some body) [''liveCutUrl''] = ''.../foo/12345/bar''"
  with assms(2) show "fetchLiveCut upstream uid' liveID' = (12345, None)"
    by (simp add: fetchLiveCut_def assms(1) fetchLiveCut_accepted digit_reads)
qed

lemma cut_info_reads:
  "Exists (Some (JObject [(''result'', JNumber result), (''liveCutStatus'', JNumber status),
       (''liveCutUrl'', JString url)])) [''result'']"
  "GetInt (Some (JObject [(''result'', JNumber 0), (''liveCutStatus'', JNumber status),
       (''liveCutUrl'', JString url)])) [''result''] = 0"
  "GetInt (Some (JObject [(''result'', JNumber 1), (''liveCutStatus'', JNumber status),
       (''liveCutUrl'', JString url)])) [''result''] = 1"
  "GetInt (Some (JObject [(''result'', JNumber result), (''liveCutStatus'', JNumber 0),
       (''liveCutUrl'', JString url)])) [''liveCutStatus''] = 0"
  "GetInt (Some (JObject [(''result'', JNumber result), (''liveCutStatus'', JNumber 1),
       (''liveCutUrl'', JString url)])) [''liveCutStatus''] = 1"
  "GetInt (Some (JObject [(''result'', JNumber result), (''liveCutStatus'', JNumber 2),
       (''liveCutUrl'', JString url)])) [''liveCutStatus''] = 2"
  "GetStringBytes (Some (JObject [(''result'', JNumber result), (''liveCutStatus'', JNumber status),
       (''liveCutUrl'', JString url)])) [''liveCutUrl''] = url"
  by (simp_all add: json_reads)

theorem fetchLiveCut_ready_witness:
  "fetchLiveCut (answer (cut_info 0 1 ''.../foo/12345/bar'')) 646973 ''abc'' = (12345, None) \<and>
   fetchLiveCut (answer (cut_info 0 1 ''https://host/foo/bar'')) 646973 ''abc'' =
     (0, Some (FetchLiveCutError (CutMatchCount 0))) \<and>
   fetchLiveCut (answer (cut_info 0 1 ''https://host/12/345/bar'')) 646973 ''abc'' =
     (0, Some (FetchLiveCutError (CutMatchCount 2))) \<and>
   fetchLiveCut (answer (cut_info 1 1 ''https://host/12345/bar'')) 646973 ''abc'' =
     (0, Some (FetchLiveCutError BadResult))"
proof -
  have u: "answer (cut_info result 1 url) (646973::int) ''abc'' =
      Parsed (JObject [(''result'', JNumber result), (''liveCutStatus'', JNumber 1),
       (''liveCutUrl'', JString url)])" for result url
    by (simp add: cut_info_def answer_def)
  from fetchLiveCut_ready [where upstream = "answer (cut_info 0 1 ''.../foo/12345/bar'')"
      and uid' = 646973 and liveID' = "''abc''", OF u cut_info_reads(5)]
  have 1: "fetchLiveCut (answer (cut_info 0 1 ''.../foo/12345/bar'')) 646973 ''abc'' =
      (12345, None)"
    by (simp add: cut_info_reads)
  from fetchLiveCut_ready [where upstream = "answer (cut_info 0 1 ''https://host/foo/bar'')"
      and uid' = 646973 and liveID' = "''abc''", OF u cut_info_reads(5)]
  have 2: "fetchLiveCut (answer (cut_info 0 1 ''https://host/foo/bar'')) 646973 ''abc'' =
     (0, Some (FetchLiveCutError (CutMatchCount 0)))"
    by (simp add: cut_info_reads is_digit_def)
  from fetchLiveCut_ready [where upstream = "answer (cut_info 0 1 ''https://host/12/345/bar'')"
      and uid' = 646973 and liveID' = "''abc''", OF u cut_info_reads(5)]
  have 3: "fetchLiveCut (answer (cut_info 0 1 ''https://host/12/345/bar'')) 646973 ''abc'' =
     (0, Some (FetchLiveCutError (CutMatchCount 2)))"
    by (simp add: cut_info_reads is_digit_def)
  from fetchLiveCut_ready [where upstream = "answer (cut_info 1 1 ''https://host/12345/bar'')"
      and uid' = 646973 and liveID' = "''abc''", OF u cut_info_reads(5)]
  have 4: "fetchLiveCut (answer (cut_info 1 1 ''https://host/12345/bar'')) 646973 ''abc'' =
     (0, Some (FetchLiveCutError BadResult))"
    by (simp add: cut_info_reads)
  from 1 2 3 4 show ?thesis by simp
qed

text \<open>
  The claim as it was stated fails twice. A ready response whose result is 1 returns an
  error for the claim's own URL. And a URL with two numeric runs, of which only one
  follows a slash, returns its number without error.
\<close>

theorem fetchLiveCut_ready_counterexample:
  "fetchLiveCut (answer (cut_info 1 1 ''.../foo/12345/bar'')) 646973 ''abc'' =
     (0, Some (FetchLiveCutError BadResult)) \<and>
   numeric_runs ''https://cdn2.host/12345/bar'' = [''2'', ''12345''] \<and>
   fetchLiveCut (answer (cut_info 0 1 ''https://cdn2.host/12345/bar'')) 646973 ''abc'' =
     (12345, None)"
  by (simp add: fetchLiveCut_def fetchLiveCut_body_def answer_def cut_info_def json_reads
        digit_reads)

text \<open>
  C5, as the code has it. A response whose status is not 1 gives 0 and \<^verbatim>\<open>nil\<close>,
  whatever the URL field holds, when its result is present and 0; when the result is
  missing or not 0, the earlier check panics and \<^verbatim>\<open>fetchLiveCut\<close> returns the
  recovered error with number 0, whatever the status.
\<close>

theorem fetchLiveCut_not_ready:
  assumes "upstream uid' liveID' = Parsed body"
    and "GetInt (Some body) [''liveCutStatus''] \<noteq> 1"
  shows
    "(Exists (Some body) [''result''] \<and> GetInt (Some body) [''result''] = 0 \<longrightarrow>
        fetchLiveCut upstream uid' liveID' = (0, None)) \<and>
     (\<not> Exists (Some body) [''result''] \<or> GetInt (Some body) [''result''] \<noteq> 0 \<longrightarrow>
        fetchLiveCut upstream uid' liveID' = (0, Some (FetchLiveCutError BadResult)))"
proof (intro conjI impI)
  assume "Exists (Some body) [''result''] \<and> GetInt (Some body) [''result''] = 0"
  with assms(2) show "fetchLiveCut upstream uid' liveID' = (0, None)"
    by (simp add: fetchLiveCut_def assms(1) fetchLiveCut_accepted)
next
  assume "\<not> Exists (Some body) [''result''] \<or> GetInt (Some body) [''result''] \<noteq> 0"
  from fetchLiveCut_refused [OF this]
  show "fetchLiveCut upstream uid' liveID' = (0, Some (FetchLiveCutError BadResult))"
    by (simp add: fetchLiveCut_def assms(1))
qed

theorem fetchLiveCut_not_ready_witness:
  "fetchLiveCut (answer (cut_info 0 0 ''https://host/12345/bar'')) 646973 ''abc'' = (0, None) \<and>
   fetchLiveCut (answer (cut_info 0 2 ''no number here'')) 646973 ''abc'' = (0, None) \<and>
   fetchLiveCut (answer (cut_info 1 2 ''https://host/12345/bar'')) 646973 ''abc'' =
     (0, Some (FetchLiveCutError BadResult))"
proof -
  have u: "answer (cut_info result status url) (646973::int) ''abc'' =
      Parsed (JObject [(''result'', JNumber result), (''liveCutStatus'', JNumber status),
       (''liveCutUrl'', JString url)])" for result status url
    by (simp add: cut_info_def answer_def)
  have n: "GetInt (Some (JObject [(''result'', JNumber result), (''liveCutStatus'', JNumber 0),
       (''liveCutUrl'', JString url)])) [''liveCutStatus''] \<noteq> 1"
    "GetInt (Some (JObject [(''result'', JNumber result), (''liveCutStatus'', JNumber 2),
       (''liveCutUrl'', JString url)])) [''liveCutStatus''] \<noteq> 1" for result url
    by (simp_all add: cut_info_reads)
  from fetchLiveCut_not_ready [where upstream = "answer (cut_info 0 0 ''https://host/12345/bar'')"
      and uid' = 646973 and liveID' = "''abc''", OF u n(1)]
  have 1: "fetchLiveCut (answer (cut_info 0 0 ''https://host/12345/bar'')) 646973 ''abc'' =
      (0, None)"
    by (simp add: cut_info_reads)
  from fetchLiveCut_not_ready [where upstream = "answer (cut_info 0 2 ''no number here'')"
      and uid' = 646973 and liveID' = "''abc''", OF u n(2)]
  have 2: "fetchLiveCut (answer (cut_info 0 2 ''no number here'')) 646973 ''abc'' = (0, None)"
    by (simp add: cut_info_reads)
  from fetchLiveCut_not_ready [where upstream = "answer (cut_info 1 2 ''https://host/12345/bar'')"
      and uid' = 646973 and liveID' = "''abc''", OF u n(2)]
  have 3: "fetchLiveCut (answer (cut_info 1 2 ''https://host/12345/bar'')) 646973 ''abc'' =
     (0, Some (FetchLiveCutError BadResult))"
    by (simp add: cut_info_reads)
  from 1 2 3 show ?thesis by simp
qed

text \<open>
  The claim as it was stated fails on a response whose status is not ready and whose
  result is 1, and on one that has no result at all: both return an error.
\<close>

theorem fetchLiveCut_not_ready_counterexample:
  "fetchLiveCut (answer (cut_info 1 0 ''https://host/12345/bar'')) 646973 ''abc'' =
     (0, Some (FetchLiveCutError BadResult)) \<and>
   fetchLiveCut (answer (Parsed (JObject [(''liveCutStatus'', JNumber 0)]))) 646973 ''abc'' =
     (0, Some (FetchLiveCutError BadResult))"
  by (simp add: fetchLiveCut_def fetchLiveCut_body_def answer_def cut_info_def json_reads)

subsection \<open>The snapshot fetcher\<close>

lemma escalate_unfold:
  "count < 1000000000 \<Longrightarrow>
   escalate upstream count v reqs =
     (case read_page (upstream count) of
        Panicked r \<Rightarrow> Some (reqs @ [count], Inl r)
      | NoMore v' \<Rightarrow> Some (reqs @ [count], Inr v')
      | More v' \<Rightarrow>
          if count = 100000000 then Some (reqs @ [count], Inl CeilingExceeded)
          else escalate upstream (count * 10) v' (reqs @ [count]))"
  by (subst escalate.simps) simp

lemma escalate_result:
  "\<exists>reqs. escalate upstream 10000 None [] = Some (reqs, outcome (read_page (upstream (last reqs)))) \<and>
     reqs \<noteq> [] \<and> length reqs \<le> 5 \<and>
     reqs = map (\<lambda>i. 10000 * 10 ^ i) [0..<length reqs] \<and>
     (\<forall>c \<in> set (butlast reqs). is_More (read_page (upstream c))) \<and>
     (is_More (read_page (upstream (last reqs))) \<longrightarrow> last reqs = 100000000)"
proof (cases "read_page (upstream 10000)")
  case (More v1)
  show ?thesis
  proof (cases "read_page (upstream 100000)")
    case (More v2)
    show ?thesis
    proof (cases "read_page (upstream 1000000)")
      case (More v3)
      show ?thesis
      proof (cases "read_page (upstream 10000000)")
        case (More v4)
        have "escalate upstream 10000 None [] =
            Some ([10000, 100000, 1000000, 10000000, 100000000],
              outcome (read_page (upstream 100000000)))"
          using \<open>read_page (upstream 10000) = More v1\<close> \<open>read_page (upstream 100000) = More v2\<close>
            \<open>read_page (upstream 1000000) = More v3\<close> More
          by (simp add: escalate_unfold outcome_def split: page.splits)
        then show ?thesis
          using \<open>read_page (upstream 10000) = More v1\<close> \<open>read_page (upstream 100000) = More v2\<close>
            \<open>read_page (upstream 1000000) = More v3\<close> More
          by (intro exI [of _ "[10000, 100000, 1000000, 10000000, 100000000]"])
             (simp add: is_More_def upt_rec)
      qed (intro exI [of _ "[10000, 100000, 1000000, 10000000]"],
           simp add: escalate_unfold outcome_def is_More_def upt_rec
             \<open>read_page (upstream 10000) = More v1\<close> \<open>read_page (upstream 100000) = More v2\<close> More)+
    qed (intro exI [of _ "[10000, 100000, 1000000]"],
         simp add: escalate_unfold outcome_def is_More_def upt_rec
           \<open>read_page (upstream 10000) = More v1\<close> More)+
  qed (intro exI [of _ "[10000, 100000]"],
       simp add: escalate_unfold outcome_def is_More_def upt_rec More)+
qed (intro exI [of _ "[10000]"], simp add: escalate_unfold outcome_def is_More_def upt_rec)+


lemma is_More_iff: "is_More p \<longleftrightarrow> (\<exists>v. p = More v)"
  by (cases p) (simp_all add: is_More_def)

lemma read_page_reason:
  "read_page resp = Panicked r \<Longrightarrow>
     r \<in> {TransportFailure, GunzipFailure, ParseFailure, BadResult}"
  by (auto simp: read_page_def Let_def split: response.splits if_splits)

lemma set_update_subset: "set (AList.update k v al) \<subseteq> insert (k, v) (set al)"
  by (induction al) auto

lemma build_list_invariant:
  assumes "\<And>l room. P (liveID (fill l room), fill l room)"
  shows "(\<forall>e \<in> set list. P e) \<Longrightarrow> \<forall>e \<in> set (fst (build_list rooms pool list)). P e"
proof (induction rooms arbitrary: pool list)
  case Nil
  then show ?case by simp
next
  case (Cons room rooms)
  obtain l pool' where g: "livePool_Get pool = (l, pool')"
    by (cases "livePool_Get pool")
  have "\<forall>e \<in> set (AList.update (liveID (fill l room)) (fill l room) list). P e"
    using Cons.prems assms [of l room] set_update_subset [of "liveID (fill l room)" "fill l room" list]
    by auto
  from Cons.IH [OF this] g show ?case by simp
qed

lemma fetchLiveList_result:
  "\<exists>reqs. reqs \<noteq> [] \<and> length reqs \<le> 5 \<and>
     reqs = map (\<lambda>i. 10000 * 10 ^ i) [0..<length reqs] \<and>
     (\<forall>c \<in> set (butlast reqs). is_More (read_page (upstream c))) \<and>
     (is_More (read_page (upstream (last reqs))) \<longrightarrow> last reqs = 100000000) \<and>
     fetchLiveList upstream pool =
       (case outcome (read_page (upstream (last reqs))) of
          Inl r \<Rightarrow> Some (reqs, pool, [], Some (FetchLiveListError r))
        | Inr v \<Rightarrow>
            Some (reqs, snd (build_list (GetArray v [''liveList'']) pool []),
              fst (build_list (GetArray v [''liveList'']) pool []), None))"
proof -
  from escalate_result [of upstream] obtain reqs where
    r: "escalate upstream 10000 None [] = Some (reqs, outcome (read_page (upstream (last reqs))))"
      "reqs \<noteq> []" "length reqs \<le> 5" "reqs = map (\<lambda>i. 10000 * 10 ^ i) [0..<length reqs]"
      "\<forall>c \<in> set (butlast reqs). is_More (read_page (upstream c))"
      "is_More (read_page (upstream (last reqs))) \<longrightarrow> last reqs = 100000000"
    by blast
  have "fetchLiveList upstream pool =
       (case outcome (read_page (upstream (last reqs))) of
          Inl r \<Rightarrow> Some (reqs, pool, [], Some (FetchLiveListError r))
        | Inr v \<Rightarrow>
            Some (reqs, snd (build_list (GetArray v [''liveList'']) pool []),
              fst (build_list (GetArray v [''liveList'']) pool []), None))"
    by (simp add: fetchLiveList_def r(1) split: sum.splits prod.splits)
  with r(2-6) show ?thesis by blast
qed

text \<open>
  C3. \<^verbatim>\<open>fetchLiveList\<close> always returns, after at least one and at most five requests
  whose page sizes are \<open>10000 * 10 ^ i\<close>. Every request but the last was answered by
  an accepted page whose cursor is not \<^verbatim>\<open>no_more\<close>. The last answer decides: a
  failure (transport, a body that cannot be decoded or parsed, a result that is missing
  or not 0) is that error; \<^verbatim>\<open>no_more\<close> is success; anything else happens only at
  the ceiling 100000000 and is the error of the exceeded ceiling.
\<close>

theorem fetchLiveList_bounded:
  "\<exists>reqs pool' list e.
     fetchLiveList upstream pool = Some (reqs, pool', list, e) \<and>
     reqs \<noteq> [] \<and> length reqs \<le> 5 \<and>
     reqs = map (\<lambda>i. 10000 * 10 ^ i) [0..<length reqs] \<and>
     (\<forall>c \<in> set (butlast reqs). \<exists>v. read_page (upstream c) = More v) \<and>
     (case read_page (upstream (last reqs)) of
        Panicked r \<Rightarrow>
          e = Some (FetchLiveListError r) \<and>
          r \<in> {TransportFailure, GunzipFailure, ParseFailure, BadResult}
      | NoMore v \<Rightarrow> e = None
      | More v \<Rightarrow> last reqs = 100000000 \<and> e = Some (FetchLiveListError CeilingExceeded))"
proof -
  from fetchLiveList_result [of upstream pool] obtain reqs where
    r: "reqs \<noteq> []" "length reqs \<le> 5" "reqs = map (\<lambda>i. 10000 * 10 ^ i) [0..<length reqs]"
      "\<forall>c \<in> set (butlast reqs). is_More (read_page (upstream c))"
      "is_More (read_page (upstream (last reqs))) \<longrightarrow> last reqs = 100000000"
    and f: "fetchLiveList upstream pool =
       (case outcome (read_page (upstream (last reqs))) of
          Inl r \<Rightarrow> Some (reqs, pool, [], Some (FetchLiveListError r))
        | Inr v \<Rightarrow>
            Some (reqs, snd (build_list (GetArray v [''liveList'']) pool []),
              fst (build_list (GetArray v [''liveList'']) pool []), None))"
    by blast
  have more: "\<forall>c \<in> set (butlast reqs). \<exists>v. read_page (upstream c) = More v"
    using r(4) by (simp add: is_More_iff)
  show ?thesis
  proof (cases "read_page (upstream (last reqs))")
    case (Panicked x)
    with f read_page_reason [OF Panicked] r(1-3) more show ?thesis
      by (intro exI [of _ reqs] exI [of _ pool] exI [of _ "[]"]
            exI [of _ "Some (FetchLiveListError x)"]) (simp add: outcome_def)
  next
    case (NoMore v)
    with f r(1-3) more show ?thesis
      by (intro exI [of _ reqs]
            exI [of _ "snd (build_list (GetArray v [''liveList'']) pool [])"]
            exI [of _ "fst (build_list (GetArray v [''liveList'']) pool [])"]
            exI [of _ "None"]) (simp add: outcome_def)
  next
    case (More v)
    with f r(1-3,5) more show ?thesis
      by (intro exI [of _ reqs] exI [of _ pool] exI [of _ "[]"]
            exI [of _ "Some (FetchLiveListError CeilingExceeded)"])
         (simp add: outcome_def is_More_def)
  qed
qed


lemma read_list_page:
  "read_page (list_page 0 pcursor rooms) =
     (if pcursor = ''no_more'' then NoMore else More)
       (Some (JObject [(''result'', JNumber 0), (''pcursor'', JString pcursor),
           (''liveList'', JArray rooms)]))"
  by (simp add: read_page_def list_page_def json_reads)

lemma fetch_second_page:
  "fetchLiveList second_page [stale] =
     Some ([10000, 100000], [], [(''L1'', session ''L1'' 646973), (''L2'', session ''L2'' 7)], None)"
  by (simp add: fetchLiveList_def escalate_unfold second_page_def read_list_page
        json_reads fill_def room_def session_def stale_def new_live_def)


theorem fetchLiveList_bounded_witness:
  "(\<exists>reqs pool' list.
      fetchLiveList (\<lambda>count. list_page 0 ''1'' []) [] =
        Some (reqs, pool', list, Some (FetchLiveListError CeilingExceeded)) \<and>
      last reqs = 100000000 \<and> length reqs \<le> 5) \<and>
   (\<exists>reqs pool' list.
      fetchLiveList second_page [stale] = Some (reqs, pool', list, None) \<and>
      reqs = [10000, 100000])"
proof
  from fetchLiveList_bounded [of "\<lambda>count. list_page 0 ''1'' []" "[]"]
  show "\<exists>reqs pool' list.
      fetchLiveList (\<lambda>count. list_page 0 ''1'' []) [] =
        Some (reqs, pool', list, Some (FetchLiveListError CeilingExceeded)) \<and>
      last reqs = 100000000 \<and> length reqs \<le> 5"
    by (auto simp add: read_list_page)
next
  from fetchLiveList_bounded [of second_page "[stale]"] fetch_second_page
  show "\<exists>reqs pool' list.
      fetchLiveList second_page [stale] = Some (reqs, pool', list, None) \<and>
      reqs = [10000, 100000]"
    by simp
qed

lemma fill_blank:
  "duration (fill l liveRoom) = 0 \<and> liveCutNum (fill l liveRoom) = 0 \<and>
   playbackURL (fill l liveRoom) = [] \<and> backupURL (fill l liveRoom) = []"
  by (simp add: fill_def)

text \<open>
  C10. A panic of \<^verbatim>\<open>fetchLiveCut\<close>'s body is returned as the error with number 0,
  and whenever \<^verbatim>\<open>fetchLiveCut\<close> returns an error its number is 0.
  \<^verbatim>\<open>fetchLiveList\<close> always returns: a panic of its loop is returned as the error,
  with no list; every session of a list it returns has duration 0, cut number 0 and
  empty playback and backup URLs, whatever the pooled objects held.
\<close>

theorem fetchers_recover:
  "(fetchLiveCut_body (upstream uid' liveID') = Inl (r, n) \<longrightarrow>
      fetchLiveCut upstream uid' liveID' = (0, Some (FetchLiveCutError r))) \<and>
   (snd (fetchLiveCut upstream uid' liveID') \<noteq> None \<longrightarrow>
      fst (fetchLiveCut upstream uid' liveID') = 0) \<and>
   (\<exists>reqs pool' list e.
      fetchLiveList pages pool = Some (reqs, pool', list, e) \<and>
      (\<forall>r'. escalate pages 10000 None [] = Some (reqs, Inl r') \<longrightarrow>
         e = Some (FetchLiveListError r') \<and> list = []) \<and>
      (e \<noteq> None \<longrightarrow> list = []) \<and>
      (\<forall>(k, l) \<in> set list.
         duration l = 0 \<and> liveCutNum l = 0 \<and> playbackURL l = [] \<and> backupURL l = []))"
proof (intro conjI impI)
  assume "fetchLiveCut_body (upstream uid' liveID') = Inl (r, n)"
  then show "fetchLiveCut upstream uid' liveID' = (0, Some (FetchLiveCutError r))"
    by (simp add: fetchLiveCut_def)
next
  assume "snd (fetchLiveCut upstream uid' liveID') \<noteq> None"
  then show "fst (fetchLiveCut upstream uid' liveID') = 0"
    by (auto simp add: fetchLiveCut_def fetchLiveCut_body_def Let_def
          split: sum.splits response.splits if_splits list.splits prod.splits option.splits)
next
  obtain reqs res where e: "escalate pages 10000 None [] = Some (reqs, res)"
    using escalate_result [of pages] by blast
  show "\<exists>reqs pool' list e.
      fetchLiveList pages pool = Some (reqs, pool', list, e) \<and>
      (\<forall>r'. escalate pages 10000 None [] = Some (reqs, Inl r') \<longrightarrow>
         e = Some (FetchLiveListError r') \<and> list = []) \<and>
      (e \<noteq> None \<longrightarrow> list = []) \<and>
      (\<forall>(k, l) \<in> set list.
         duration l = 0 \<and> liveCutNum l = 0 \<and> playbackURL l = [] \<and> backupURL l = [])"
  proof (cases res)
    case (Inl r')
    with e show ?thesis by (simp add: fetchLiveList_def)
  next
    case (Inr v)
    have "\<forall>e \<in> set (fst (build_list (GetArray v [''liveList'']) pool [])).
        (\<lambda>(k, l). duration l = 0 \<and> liveCutNum l = 0 \<and> playbackURL l = [] \<and> backupURL l = []) e"
      by (rule build_list_invariant) (simp_all add: fill_blank)
    with e Inr show ?thesis
      by (simp add: fetchLiveList_def split: prod.splits)
  qed
qed

theorem fetchers_recover_witness:
  "fetchLiveCut_body (cut_info 0 1 ''/99999999999999999999'') =
     Inl (AtoiFailure ErrRange, 9223372036854775807) \<and>
   fetchLiveCut (\<lambda>u i. cut_info 0 1 ''/99999999999999999999'') 646973 ''L1'' =
     (0, Some (FetchLiveCutError (AtoiFailure ErrRange))) \<and>
   fetchLiveList second_page [stale] =
     Some ([10000, 100000], [],
       [(''L1'', session ''L1'' 646973), (''L2'', session ''L2'' 7)], None) \<and>
   duration (session ''L1'' 646973) = 0 \<and> liveCutNum (session ''L1'' 646973) = 0 \<and>
   playbackURL (session ''L1'' 646973) = [] \<and> backupURL (session ''L1'' 646973) = []"
proof -
  have b: "fetchLiveCut_body (cut_info 0 1 ''/99999999999999999999'') =
     Inl (AtoiFailure ErrRange, 9223372036854775807)"
    by (simp add: fetchLiveCut_body_def cut_info_def json_reads digit_reads)
  from fetchers_recover [of "\<lambda>u i. cut_info 0 1 ''/99999999999999999999''" 646973 "''L1''"
      "AtoiFailure ErrRange" 9223372036854775807 second_page "[stale]"] b fetch_second_page
  show ?thesis
    by (simp add: session_def)
qed


subsection \<open>The diff of two snapshots\<close>

lemma emit_fields [simp]:
  "oldList (emit es st) = oldList st" "newList (emit es st) = newList st"
  "livePool (emit es st) = livePool st" "listCalls (emit es st) = listCalls st"
  "trace (emit es st) = trace st @ es"
  by (simp_all add: emit_def)

lemma started_body_fields [simp]:
  "oldList (started_body l st) = oldList st" "newList (started_body l st) = newList st"
  "livePool (started_body l st) = livePool st"
  by (simp_all add: started_body_def)

lemma ended_body_fields [simp]:
  "oldList (ended_body l st) = oldList st" "newList (ended_body l st) = newList st"
  by (simp_all add: ended_body_def)

lemma fold_started_body_fields [simp]:
  "oldList (fold started_body ls st) = oldList st"
  "newList (fold started_body ls st) = newList st"
  "livePool (fold started_body ls st) = livePool st"
  by (induction ls arbitrary: st) simp_all

lemma fold_ended_body_fields [simp]:
  "oldList (fold ended_body ls st) = oldList st"
  "newList (fold ended_body ls st) = newList st"
  by (induction ls arbitrary: st) simp_all

lemma fold_started_body_trace:
  "trace (fold started_body ls st) =
     trace st @ concat (map on_started [l \<leftarrow> ls. map_of (oldList st) (liveID l) = None])"
  by (induction ls arbitrary: st) (simp_all add: started_body_def on_started_def)

lemma fold_ended_body_trace:
  "trace (fold ended_body ls st) = trace st @ concat (map (on_previous (newList st)) ls)"
  by (induction ls arbitrary: st) (simp_all add: ended_body_def on_previous_def)

lemma diff_loops_fields [simp]:
  "oldList (diff_loops st) = oldList st" "newList (diff_loops st) = newList st"
  by (simp_all add: diff_loops_def Let_def)

lemma diff_loops_trace:
  "trace (diff_loops st) = trace st @ diff_events (oldList st) (newList st)"
  by (simp add: diff_loops_def Let_def fold_started_body_trace fold_ended_body_trace
        diff_events_def started_def)

lemma map_of_None_iff: "map_of m k = None \<longleftrightarrow> k \<notin> fst ` set m"
  by (simp add: map_of_eq_None_iff)

lemma filter_ids:
  assumes "\<forall>(k, v) \<in> set m. f v = k"
  shows "f ` set [v \<leftarrow> map snd m. P (f v)] = {k \<in> fst ` set m. P k}"
proof (intro set_eqI iffI)
  fix k
  assume "k \<in> f ` set [v \<leftarrow> map snd m. P (f v)]"
  then obtain e where e: "e \<in> set m" "P (f (snd e))" "k = f (snd e)"
    by auto
  from assms e(1) have "f (snd e) = fst e"
    by (cases e) auto
  with e show "k \<in> {k \<in> fst ` set m. P k}"
    by auto
next
  fix k
  assume "k \<in> {k \<in> fst ` set m. P k}"
  then obtain e where e: "e \<in> set m" "fst e = k" "P k"
    by auto
  from assms e(1) have "f (snd e) = fst e"
    by (cases e) auto
  with e have "snd e \<in> set [v \<leftarrow> map snd m. P (f v)]" "f (snd e) = k"
    by auto
  then show "k \<in> f ` set [v \<leftarrow> map snd m. P (f v)]"
    by (metis imageI)
qed

lemma keyed_iff: "keyed m \<longleftrightarrow> (\<forall>(k, l) \<in> set m. liveID l = k)"
  by (simp add: keyed_def list_all_iff)

lemma keyed_started_ids:
  "keyed current \<Longrightarrow>
     liveID ` set (started previous current) = fst ` set current - fst ` set previous"
  unfolding started_def keyed_iff map_of_None_iff
  by (subst filter_ids [where f = liveID and P = "\<lambda>k. k \<notin> fst ` set previous"]) auto

lemma keyed_ended_ids:
  "keyed previous \<Longrightarrow>
     liveID ` set (ended previous current) = fst ` set previous - fst ` set current"
  unfolding ended_def keyed_iff map_of_None_iff
  by (subst filter_ids [where f = liveID and P = "\<lambda>k. k \<notin> fst ` set current"]) auto

lemma keyed_continuing_ids:
  "keyed previous \<Longrightarrow>
     liveID ` set (continuing previous current) = fst ` set previous \<inter> fst ` set current"
  unfolding continuing_def keyed_iff map_of_None_iff
  by (subst filter_ids [where f = liveID and P = "\<lambda>k. \<not> k \<notin> fst ` set current"]) auto

lemma inserted_by_diff:
  "Insert l \<in> set (diff_events previous current) \<longleftrightarrow>
     l \<in> set (started previous current) \<and> uid l = 646973"
  by (auto simp: diff_events_def on_started_def on_previous_def split: if_splits)

lemma cut_spawned_by_diff:
  "Go (LiveCutTask u i) \<in> set (diff_events previous current) \<longleftrightarrow>
     (\<exists>l \<in> set (started previous current). uid l = 646973 \<and> u = uid l \<and> i = liveID l)"
  by (auto simp: diff_events_def on_started_def on_previous_def split: if_splits)

lemma summary_spawned_by_diff:
  "Go (SummaryTask l) \<in> set (diff_events previous current) \<longleftrightarrow>
     l \<in> set (ended previous current) \<and> uid l = 646973"
  by (auto simp: diff_events_def on_started_def on_previous_def ended_def split: if_splits)

lemma pooled_by_diff:
  "PoolPut l \<in> set (diff_events previous current) \<longleftrightarrow> l \<in> set (continuing previous current)"
  by (auto simp: diff_events_def on_started_def on_previous_def continuing_def split: if_splits)

text \<open>
  C1. For snapshots whose entries are stored under their own ids (every map of
  \<^verbatim>\<open>fetchLiveList\<close> and the empty first one, hence both maps of every turn of the
  loop: \<open>fetched_keyed\<close> and \<open>iteration_keyed\<close> below), the ids handled as started and those
  handled as ended are disjoint; started, continuing and ended ids together are exactly
  the ids of the two snapshots; the two loops leave both maps as they were; and what
  the loops do follows the sets: an insert for each watched started session, a summary
  task for each watched ended session, a return to the pool for each continuing one.
\<close>

theorem diff_partition:
  assumes "keyed (oldList st)" and "keyed (newList st)"
  shows
    "liveID ` set (started (oldList st) (newList st)) \<inter>
       liveID ` set (ended (oldList st) (newList st)) = {} \<and>
     liveID ` set (started (oldList st) (newList st)) \<union>
       liveID ` set (continuing (oldList st) (newList st)) \<union>
       liveID ` set (ended (oldList st) (newList st)) =
         fst ` set (oldList st) \<union> fst ` set (newList st) \<and>
     oldList (diff_loops st) = oldList st \<and> newList (diff_loops st) = newList st \<and>
     (\<exists>es. trace (diff_loops st) = trace st @ es \<and>
        {l. Insert l \<in> set es} =
          {l \<in> set (started (oldList st) (newList st)). uid l = 646973} \<and>
        {l. Go (SummaryTask l) \<in> set es} =
          {l \<in> set (ended (oldList st) (newList st)). uid l = 646973} \<and>
        {l. PoolPut l \<in> set es} = set (continuing (oldList st) (newList st)))"
proof (intro conjI)
  show "liveID ` set (started (oldList st) (newList st)) \<inter>
       liveID ` set (ended (oldList st) (newList st)) = {}"
    using assms by (auto simp: keyed_started_ids keyed_ended_ids)
  show "liveID ` set (started (oldList st) (newList st)) \<union>
       liveID ` set (continuing (oldList st) (newList st)) \<union>
       liveID ` set (ended (oldList st) (newList st)) =
         fst ` set (oldList st) \<union> fst ` set (newList st)"
    using assms by (auto simp: keyed_started_ids keyed_ended_ids keyed_continuing_ids)
  show "oldList (diff_loops st) = oldList st" and "newList (diff_loops st) = newList st"
    by simp_all
  show "\<exists>es. trace (diff_loops st) = trace st @ es \<and>
        {l. Insert l \<in> set es} =
          {l \<in> set (started (oldList st) (newList st)). uid l = 646973} \<and>
        {l. Go (SummaryTask l) \<in> set es} =
          {l \<in> set (ended (oldList st) (newList st)). uid l = 646973} \<and>
        {l. PoolPut l \<in> set es} = set (continuing (oldList st) (newList st))"
    by (intro exI [of _ "diff_events (oldList st) (newList st)"])
       (simp add: diff_loops_trace inserted_by_diff summary_spawned_by_diff pooled_by_diff)
qed

theorem diff_partition_witness:
  "keyed previous_snapshot \<and> keyed current_snapshot \<and>
   started previous_snapshot current_snapshot = [session ''C'' 646973] \<and>
   ended previous_snapshot current_snapshot = [session ''A'' 646973] \<and>
   continuing previous_snapshot current_snapshot = [session ''B'' 7] \<and>
   liveID ` set (started previous_snapshot current_snapshot) \<inter>
     liveID ` set (ended previous_snapshot current_snapshot) = {} \<and>
   oldList (diff_loops diff_state) = previous_snapshot \<and>
   newList (diff_loops diff_state) = current_snapshot \<and>
   trace (diff_loops diff_state) =
     [Println (session ''C'' 646973), Insert (session ''C'' 646973),
      Go (LiveCutTask 646973 ''C''), Go (SummaryTask (session ''A'' 646973)),
      PoolPut (session ''B'' 7)]"
proof -
  have k: "keyed (oldList diff_state)" "keyed (newList diff_state)"
    by (simp_all add: diff_state_def keyed_def previous_snapshot_def current_snapshot_def
          session_def)
  have s: "oldList diff_state = previous_snapshot" "newList diff_state = current_snapshot"
    by (simp_all add: diff_state_def)
  have e: "started previous_snapshot current_snapshot = [session ''C'' 646973]"
    "ended previous_snapshot current_snapshot = [session ''A'' 646973]"
    "continuing previous_snapshot current_snapshot = [session ''B'' 7]"
    by (simp_all add: started_def ended_def continuing_def previous_snapshot_def
          current_snapshot_def session_def)
  have t: "trace (diff_loops diff_state) =
     [Println (session ''C'' 646973), Insert (session ''C'' 646973),
      Go (LiveCutTask 646973 ''C''), Go (SummaryTask (session ''A'' 646973)),
      PoolPut (session ''B'' 7)]"
    by (simp add: diff_loops_def diff_state_def started_body_def ended_body_def emit_def
          previous_snapshot_def current_snapshot_def session_def)
  from diff_partition [OF k] k s e t show ?thesis
    by simp
qed

subsection \<open>Unwatched sessions and exhausted retries\<close>

lemma runThrice_loop_invariant:
  "(\<And>s e s'. f s = Some (e, s') \<Longrightarrow> P s \<Longrightarrow> P s') \<Longrightarrow> P s \<Longrightarrow>
     runThrice_loop f retry err s log = Some (r, s', log') \<Longrightarrow> P s'"
proof (induction f retry err s log rule: runThrice_loop.induct)
  case (1 f retry err s log)
  note step = "1.prems"(1)
  show ?case
  proof (cases "retry < 3")
    case False
    with "1.prems"(2,3) show ?thesis
      by (simp add: runThrice_loop.simps [of f retry])
  next
    case True
    show ?thesis
    proof (cases "f s")
      case None
      with True "1.prems"(3) show ?thesis
        by (simp add: runThrice_loop.simps [of f retry])
    next
      case (Some p)
      obtain eo s1 where p: "p = (eo, s1)" by (cases p)
      from step [of s eo s1] Some p "1.prems"(2) have P1: "P s1" by simp
      show ?thesis
      proof (cases eo)
        case None
        with True Some p "1.prems"(3) P1 show ?thesis
          by (simp add: runThrice_loop.simps [of f retry])
      next
        case (Some e)
        with True \<open>f s = Some p\<close> p "1.prems"(3)
        have "runThrice_loop f (retry + 1) (Some e) s1
                 (log @ [Invoke, LogPrintf e, Sleep 10]) = Some (r, s', log')"
          by (simp add: runThrice_loop.simps [of f retry])
        from "1.IH" [OF True \<open>f s = Some p\<close> p [symmetric] Some step P1 this]
        show ?thesis .
      qed
    qed
  qed
qed

lemma runThrice_invariant:
  assumes "\<And>s e s'. f s = Some (e, s') \<Longrightarrow> P s \<Longrightarrow> P s'"
    and "P s" and "runThrice f s = Some (r, s', log)"
  shows "P s'"
  using runThrice_loop_invariant [of f P s 0 None "[]" r s' log] assms
  by (simp add: runThrice_def)

lemma fetchLiveList_op_keeps:
  "fetchLiveList_op upstream s = Some (e, s') \<Longrightarrow>
     oldList s' = oldList s \<and> trace s' = trace s"
  by (auto simp: fetchLiveList_op_def split: option.splits prod.splits)

lemma fetch_keeps:
  assumes "runThrice (fetchLiveList_op upstream) (st\<lparr>newList := []\<rparr>) = Some (r, st1, log)"
  shows "oldList st1 = oldList st \<and> trace st1 = trace st"
proof -
  have "oldList st1 = oldList (st\<lparr>newList := []\<rparr>) \<and> trace st1 = trace (st\<lparr>newList := []\<rparr>)"
    by (rule runThrice_invariant [where f = "fetchLiveList_op upstream"
          and P = "\<lambda>s. oldList s = oldList (st\<lparr>newList := []\<rparr>) \<and>
                       trace s = trace (st\<lparr>newList := []\<rparr>)", OF _ _ assms])
       (auto dest: fetchLiveList_op_keeps)
  then show ?thesis by simp
qed

lemma iteration_continues:
  assumes "runThrice (fetchLiveList_op upstream) (st\<lparr>newList := []\<rparr>) = Some (None, st1, log)"
  shows "\<exists>st'. iteration upstream st = Some (Continue, st') \<and> oldList st' = newList st1 \<and>
     newList st' = newList st1 \<and>
     trace st' = trace st @ map Retry log @ diff_events (oldList st) (newList st1) @ [SleepFor 20]"
  using fetch_keeps [OF assms] assms
  by (simp add: iteration_def Let_def diff_loops_trace)




lemma Go_in_turn:
  "Go t \<in> set (map Retry log @ es @ [SleepFor 20]) \<longleftrightarrow> Go t \<in> set es"
  by auto




lemma fetch_second_page_empty:
  "fetchLiveList second_page [] =
     Some ([10000, 100000], [], [(''L1'', session ''L1'' 646973), (''L2'', session ''L2'' 7)], None)"
  by (simp add: fetchLiveList_def escalate_unfold second_page_def read_list_page
        json_reads fill_def room_def session_def new_live_def)

lemma watch_fetch:
  "runThrice (fetchLiveList_op (\<lambda>n. second_page)) (watch_state\<lparr>newList := []\<rparr>) =
     Some (None,
       watch_state\<lparr>newList := [(''L1'', session ''L1'' 646973), (''L2'', session ''L2'' 7)],
         livePool := [], listCalls := 1\<rparr>,
       [Invoke])"
  by (simp add: runThrice_def runThrice_loop.simps fetchLiveList_op_def watch_state_def
        fetch_second_page_empty)


lemma list_all_quiet_retry:
  "list_all (\<lambda>e. \<not> writes e \<and> \<not> spawns e) (map Retry log)"
  by (simp add: list_all_iff)

lemma fetch_fatal:
  assumes "fetchLiveList_op upstream (st\<lparr>newList := []\<rparr>) = Some (Some e1, s1)"
    and "fetchLiveList_op upstream s1 = Some (Some e2, s2)"
    and "fetchLiveList_op upstream s2 = Some (Some e3, s3)"
  shows "iteration upstream st =
      Some (Returned, s3\<lparr>trace := trace st @
        map Retry [Invoke, LogPrintf e1, Sleep 10, Invoke, LogPrintf e2, Sleep 10,
          Invoke, LogPrintf e3, Sleep 10] @ [Log TooManyListErrors]\<rparr>)"
    and "oldList s3 = oldList st"
proof -
  have r: "runThrice (fetchLiveList_op upstream) (st\<lparr>newList := []\<rparr>) =
      Some (Some (RunThriceError (Some e3)), s3,
        [Invoke, LogPrintf e1, Sleep 10, Invoke, LogPrintf e2, Sleep 10,
         Invoke, LogPrintf e3, Sleep 10])"
    by (rule runThrice_fail_thrice [OF assms])
  from fetch_keeps [OF r] show "oldList s3 = oldList st" by simp
  from fetch_keeps [OF r] r show "iteration upstream st =
      Some (Returned, s3\<lparr>trace := trace st @
        map Retry [Invoke, LogPrintf e1, Sleep 10, Invoke, LogPrintf e2, Sleep 10,
          Invoke, LogPrintf e3, Sleep 10] @ [Log TooManyListErrors]\<rparr>)"
    by (simp add: iteration_def emit_def)
qed

lemma poll_loop_unfold:
  "\<not> cancelled i \<Longrightarrow> iteration upstream st = Some (Returned, st') \<Longrightarrow>
     poll_loop upstream cancelled i st = Some st'"
  by (subst poll_loop.simps) simp

lemma cut_abandoned:
  assumes "\<forall>k<3. snd (fetchLiveCut (upstream k) u i) \<noteq> None"
  shows "\<exists>log. liveCutTask upstream u i = Some (map Retry log @ [Log (CutAbandoned u i)]) \<and>
     invocations log = 3"
proof -
  from assms have "snd (fetchLiveCut (upstream 0) u i) \<noteq> None"
    "snd (fetchLiveCut (upstream (Suc 0)) u i) \<noteq> None"
    "snd (fetchLiveCut (upstream (Suc (Suc 0))) u i) \<noteq> None"
    by simp_all
  then obtain n1 e1 n2 e2 n3 e3 where
    f: "fetchLiveCut (upstream 0) u i = (n1, Some e1)"
       "fetchLiveCut (upstream (Suc 0)) u i = (n2, Some e2)"
       "fetchLiveCut (upstream (Suc (Suc 0))) u i = (n3, Some e3)"
    by (metis not_None_eq prod.collapse)
  have "runThrice (fetchLiveCut_op upstream u i) (0, 0) =
      Some (Some (RunThriceError (Some e3)), (Suc (Suc (Suc 0)), n3),
        [Invoke, LogPrintf e1, Sleep 10, Invoke, LogPrintf e2, Sleep 10,
         Invoke, LogPrintf e3, Sleep 10])"
    by (rule runThrice_fail_thrice [where ?s1.0 = "(Suc 0, n1)" and ?s2.0 = "(Suc (Suc 0), n2)"])
       (simp_all add: fetchLiveCut_op_def f)
  then show ?thesis
    by (intro exI [of _ "[Invoke, LogPrintf e1, Sleep 10, Invoke, LogPrintf e2, Sleep 10,
         Invoke, LogPrintf e3, Sleep 10]"]) (simp add: liveCutTask_def)
qed

lemma summary_abandoned:
  assumes "\<forall>k<3. snd (lib k (liveID l)) \<noteq> None"
  shows "\<exists>log. summaryTask lib l =
       Some (SleepFor 10 # map Retry log @ [Log (SummaryAbandoned l), PoolPut l]) \<and>
     invocations log = 3"
proof -
  from assms have "snd (lib 0 (liveID l)) \<noteq> None"
    "snd (lib (Suc 0) (liveID l)) \<noteq> None" "snd (lib (Suc (Suc 0)) (liveID l)) \<noteq> None"
    by simp_all
  then obtain n1 e1 n2 e2 n3 e3 where
    f: "lib 0 (liveID l) = (n1, Some e1)" "lib (Suc 0) (liveID l) = (n2, Some e2)"
       "lib (Suc (Suc 0)) (liveID l) = (n3, Some e3)"
    by (metis not_None_eq prod.collapse)
  have "runThrice (GetSummary_op lib l) (0, None) =
      Some (Some (RunThriceError (Some e3)), (Suc (Suc (Suc 0)), n3),
        [Invoke, LogPrintf e1, Sleep 10, Invoke, LogPrintf e2, Sleep 10,
         Invoke, LogPrintf e3, Sleep 10])"
    by (rule runThrice_fail_thrice [where ?s1.0 = "(Suc 0, n1)" and ?s2.0 = "(Suc (Suc 0), n2)"])
       (simp_all add: GetSummary_op_def f)
  then show ?thesis
    by (intro exI [of _ "[Invoke, LogPrintf e1, Sleep 10, Invoke, LogPrintf e2, Sleep 10,
         Invoke, LogPrintf e3, Sleep 10]"]) (simp add: summaryTask_def)
qed

lemma fetch_down:
  "fetchLiveList_op down s =
     Some (Some (FetchLiveListError TransportFailure),
       s\<lparr>newList := [], listCalls := Suc (listCalls s)\<rparr>)"
  by (simp add: fetchLiveList_op_def fetchLiveList_def escalate_unfold down_def read_page_def)

subsection \<open>The summary task and the playback lookup\<close>

lemma runThrice_loop_success_last:
  "runThrice_loop f retry err s log = Some (None, s', log') \<Longrightarrow> last log' = Invoke"
proof (induction f retry err s log rule: runThrice_loop.induct)
  case (1 f retry err s log)
  show ?case
  proof (cases "retry < 3")
    case False
    with "1.prems" show ?thesis
      by (simp add: runThrice_loop.simps [of f retry])
  next
    case True
    show ?thesis
    proof (cases "f s")
      case None
      with True "1.prems" show ?thesis
        by (simp add: runThrice_loop.simps [of f retry])
    next
      case (Some p)
      obtain eo s1 where p: "p = (eo, s1)" by (cases p)
      show ?thesis
      proof (cases eo)
        case None
        with True Some p "1.prems" show ?thesis
          by (auto simp add: runThrice_loop.simps [of f retry])
      next
        case (Some e)
        with True \<open>f s = Some p\<close> p "1.prems"
        have "runThrice_loop f (retry + 1) (Some e) s1
                 (log @ [Invoke, LogPrintf e, Sleep 10]) = Some (None, s', log')"
          by (simp add: runThrice_loop.simps [of f retry])
        from "1.IH" [OF True \<open>f s = Some p\<close> p [symmetric] Some this]
        show ?thesis .
      qed
    qed
  qed
qed

text \<open>
  C6. When the summary lookup of an ended session succeeds and reports duration 0,
  the task logs, returns the object to the pool and ends: it calls neither
  \<^verbatim>\<open>insert\<close> nor \<^verbatim>\<open>updateLiveDuration\<close>, starts nothing, and makes no call after
  the one that succeeded (at most 3 in all).
\<close>

theorem zero_duration_abandoned:
  assumes "runThrice (GetSummary_op lib l) (0, None) = Some (None, (n, Some summary), log)"
    and "Duration summary = 0"
  shows "summaryTask lib l =
       Some (SleepFor 10 # map Retry log @ [Log (ZeroDuration l), PoolPut l]) \<and>
     list_all (\<lambda>e. \<not> writes e \<and> \<not> spawns e)
       (SleepFor 10 # map Retry log @ [Log (ZeroDuration l), PoolPut l]) \<and>
     invocations log \<le> 3 \<and> last log = Invoke"
proof -
  from assms have "summaryTask lib l =
       Some (SleepFor 10 # map Retry log @ [Log (ZeroDuration l), PoolPut l])"
    by (simp add: summaryTask_def)
  moreover from assms(1) have "runThrice_loop (GetSummary_op lib l) 0 None (0, None) [] =
      Some (None, (n, Some summary), log)"
    by (simp add: runThrice_def)
  from runThrice_loop_bounds [OF this] have "invocations log \<le> 3"
    by simp
  moreover from assms(1) have "last log = Invoke"
    by (simp add: runThrice_def runThrice_loop_success_last)
  ultimately show ?thesis
    by (simp add: list_all_quiet_retry)
qed

lemma summary_late_run:
  "runThrice (GetSummary_op (summary_late d) l) (0, None) =
     Some (None, (3, Some \<lparr>Duration = d\<rparr>),
       [Invoke, LogPrintf (LibraryError ''timeout''), Sleep 10,
        Invoke, LogPrintf (LibraryError ''timeout''), Sleep 10, Invoke])"
proof -
  have "runThrice (GetSummary_op (summary_late d) l) (0, None) =
     Some (None, (Suc (Suc (Suc 0)), Some \<lparr>Duration = d\<rparr>),
       [Invoke, LogPrintf (LibraryError ''timeout''), Sleep 10,
        Invoke, LogPrintf (LibraryError ''timeout''), Sleep 10, Invoke])"
    by (rule runThrice_fail_fail_ok [where ?s1.0 = "(Suc 0, None)"
          and ?s2.0 = "(Suc (Suc 0), None)"])
       (simp_all add: GetSummary_op_def summary_late_def)
  then show ?thesis by (simp add: numeral_3_eq_3)
qed

theorem zero_duration_abandoned_witness:
  "summaryTask (summary_late 0) (session ''A'' 646973) =
     Some [SleepFor 10, Retry Invoke, Retry (LogPrintf (LibraryError ''timeout'')),
       Retry (Sleep 10), Retry Invoke, Retry (LogPrintf (LibraryError ''timeout'')),
       Retry (Sleep 10), Retry Invoke, Log (ZeroDuration (session ''A'' 646973)),
       PoolPut (session ''A'' 646973)] \<and>
   summaryTask (summary_late 600000) (session ''A'' 646973) =
     Some [SleepFor 10, Retry Invoke, Retry (LogPrintf (LibraryError ''timeout'')),
       Retry (Sleep 10), Retry Invoke, Retry (LogPrintf (LibraryError ''timeout'')),
       Retry (Sleep 10), Retry Invoke, Insert (session ''A'' 646973),
       UpdateLiveDuration ''A'' 600000, PoolPut (session ''A'' 646973)]"
proof -
  have d: "Duration \<lparr>Duration = 0\<rparr> = 0"
    by simp
  from zero_duration_abandoned [OF summary_late_run d]
  have "summaryTask (summary_late 0) (session ''A'' 646973) =
     Some [SleepFor 10, Retry Invoke, Retry (LogPrintf (LibraryError ''timeout'')),
       Retry (Sleep 10), Retry Invoke, Retry (LogPrintf (LibraryError ''timeout'')),
       Retry (Sleep 10), Retry Invoke, Log (ZeroDuration (session ''A'' 646973)),
       PoolPut (session ''A'' 646973)]"
    by simp
  moreover have "summaryTask (summary_late 600000) (session ''A'' 646973) =
     Some [SleepFor 10, Retry Invoke, Retry (LogPrintf (LibraryError ''timeout'')),
       Retry (Sleep 10), Retry Invoke, Retry (LogPrintf (LibraryError ''timeout'')),
       Retry (Sleep 10), Retry Invoke, Insert (session ''A'' 646973),
       UpdateLiveDuration ''A'' 600000, PoolPut (session ''A'' 646973)]"
    by (simp add: summaryTask_def summary_late_run session_def)
  ultimately show ?thesis by simp
qed

text \<open>
  C7, as the code has it. After a successful lookup with a playback URL: when
  \<^verbatim>\<open>Distinguish\<close> returns both URLs, \<^verbatim>\<open>getPlayback\<close> assigns the first to
  \<^verbatim>\<open>URL\<close> and the second to \<^verbatim>\<open>BackupURL\<close>; when one of them is empty, it logs the
  warning and returns the playback as the library gave it, both fields unchanged (the
  URL is not emptied). With no playback URL it returns the playback as it is, without
  a warning.
\<close>

theorem getPlayback_urls:
  assumes "runThrice (GetPlayback_op lib liveID') (0, None) = Some (None, (n, Some playback), log)"
  shows
    "(URL playback \<noteq> [] \<and> fst (Distinguish playback) \<noteq> [] \<and> snd (Distinguish playback) \<noteq> []
        \<longrightarrow>
      getPlayback lib Distinguish liveID' =
        Some (map Retry log,
          Inr (Some (playback\<lparr>URL := fst (Distinguish playback),
                 BackupURL := snd (Distinguish playback)\<rparr>), None))) \<and>
     (URL playback \<noteq> [] \<and> (fst (Distinguish playback) = [] \<or> snd (Distinguish playback) = [])
        \<longrightarrow>
      getPlayback lib Distinguish liveID' =
        Some (map Retry log @ [Log (Unclassified liveID')], Inr (Some playback, None))) \<and>
     (URL playback = [] \<longrightarrow>
      getPlayback lib Distinguish liveID' = Some (map Retry log, Inr (Some playback, None)))"
  using assms by (auto simp add: getPlayback_def split: prod.splits)

lemma found_playback_run:
  "runThrice (GetPlayback_op (found_playback p) i) (0, None) = Some (None, (1, Some p), [Invoke])"
  by (simp add: runThrice_def runThrice_loop.simps GetPlayback_op_def found_playback_def)

theorem getPlayback_urls_witness:
  "getPlayback (found_playback \<lparr>URL = ''https://tx/1.m3u8'', BackupURL = ''https://ali/1.m3u8''\<rparr>)
     swapped_providers ''L1'' =
     Some ([Retry Invoke],
       Inr (Some \<lparr>URL = ''https://ali/1.m3u8'', BackupURL = ''https://tx/1.m3u8''\<rparr>, None)) \<and>
   getPlayback (found_playback \<lparr>URL = ''https://ali/1.m3u8'', BackupURL = []\<rparr>)
     only_primary ''L1'' =
     Some ([Retry Invoke, Log (Unclassified ''L1'')],
       Inr (Some \<lparr>URL = ''https://ali/1.m3u8'', BackupURL = []\<rparr>, None)) \<and>
   getPlayback (found_playback \<lparr>URL = [], BackupURL = []\<rparr>) only_primary ''L1'' =
     Some ([Retry Invoke], Inr (Some \<lparr>URL = [], BackupURL = []\<rparr>, None))"
  using
    getPlayback_urls [OF found_playback_run
      [of "\<lparr>URL = ''https://tx/1.m3u8'', BackupURL = ''https://ali/1.m3u8''\<rparr>" "''L1''"],
      where Distinguish = swapped_providers]
    getPlayback_urls [OF found_playback_run
      [of "\<lparr>URL = ''https://ali/1.m3u8'', BackupURL = []\<rparr>" "''L1''"],
      where Distinguish = only_primary]
    getPlayback_urls [OF found_playback_run [of "\<lparr>URL = [], BackupURL = []\<rparr>" "''L1''"],
      where Distinguish = only_primary]
  by (simp add: swapped_providers_def only_primary_def)

text \<open>
  The claim's empty fields fail on a playback whose URLs no provider matches: the
  warning is logged and both URLs come back as the library gave them.
\<close>

theorem getPlayback_unclassified_counterexample:
  "getPlayback
     (found_playback \<lparr>URL = ''https://cdn/1.m3u8'', BackupURL = ''https://cdn/2.m3u8''\<rparr>)
     no_provider ''L1'' =
     Some ([Retry Invoke, Log (Unclassified ''L1'')],
       Inr (Some \<lparr>URL = ''https://cdn/1.m3u8'', BackupURL = ''https://cdn/2.m3u8''\<rparr>, None)) \<and>
   URL \<lparr>URL = ''https://cdn/1.m3u8'', BackupURL = ''https://cdn/2.m3u8''\<rparr> \<noteq> [] \<and>
   BackupURL \<lparr>URL = ''https://cdn/1.m3u8'', BackupURL = ''https://cdn/2.m3u8''\<rparr> \<noteq> []"
  by (simp add: getPlayback_def found_playback_run no_provider_def)

subsection \<open>Every snapshot of the loop is stored under its own ids\<close>

lemma build_list_keyed: "keyed list \<Longrightarrow> keyed (fst (build_list rooms pool list))"
proof -
  assume "keyed list"
  then have "\<forall>e \<in> set list. (\<lambda>(k, l). liveID l = k) e"
    by (simp add: keyed_iff)
  from build_list_invariant [where P = "\<lambda>(k, l). liveID l = k", OF _ this]
  have "\<forall>e \<in> set (fst (build_list rooms pool list)). (\<lambda>(k, l). liveID l = k) e"
    by simp
  then show ?thesis
    by (simp add: keyed_iff)
qed

lemma fetchLiveList_keyed:
  assumes "fetchLiveList upstream pool = Some (reqs, pool', list, e)"
  shows "keyed list"
proof (cases "escalate upstream 10000 None []")
  case None
  with assms show ?thesis by (simp add: fetchLiveList_def)
next
  case (Some p)
  obtain rs res where p: "p = (rs, res)" by (cases p)
  show ?thesis
  proof (cases res)
    case (Inl r)
    with assms Some p show ?thesis by (simp add: fetchLiveList_def keyed_def)
  next
    case (Inr v)
    with assms Some p have "list = fst (build_list (GetArray v [''liveList'']) pool [])"
      by (auto simp: fetchLiveList_def split: prod.splits)
    moreover have "keyed []"
      by (simp add: keyed_def)
    ultimately show ?thesis
      using build_list_keyed [of "[]" "GetArray v [''liveList'']" pool] by simp
  qed
qed

lemma fetchLiveList_op_keyed:
  "fetchLiveList_op upstream s = Some (e, s') \<Longrightarrow> keyed (newList s')"
  by (auto simp: fetchLiveList_op_def dest: fetchLiveList_keyed split: option.splits prod.splits)

lemma fetched_keyed:
  assumes "runThrice (fetchLiveList_op upstream) (st\<lparr>newList := []\<rparr>) = Some (r, st1, log)"
  shows "keyed (newList st1)"
  by (rule runThrice_invariant [where f = "fetchLiveList_op upstream"
        and P = "\<lambda>s. keyed (newList s)", OF _ _ assms])
     (auto dest: fetchLiveList_op_keyed simp: keyed_def)

lemma iteration_keyed:
  assumes "keyed (oldList st)" and "iteration upstream st = Some (status, st')"
  shows "keyed (oldList st')"
proof (cases "runThrice (fetchLiveList_op upstream) (st\<lparr>newList := []\<rparr>)")
  case None
  with assms(2) show ?thesis by (simp add: iteration_def)
next
  case (Some p)
  obtain r st1 log where p: "p = (r, st1, log)" by (cases p)
  from Some p have run: "runThrice (fetchLiveList_op upstream) (st\<lparr>newList := []\<rparr>) =
      Some (r, st1, log)" by simp
  show ?thesis
  proof (cases r)
    case None
    with run iteration_continues [of upstream st st1 log] assms(2) fetched_keyed [OF run]
    show ?thesis by auto
  next
    case (Some err)
    with run fetch_keeps [OF run] assms show ?thesis
      by (auto simp: iteration_def)
  qed
qed


subsection \<open>Exhausted retries\<close>

lemma started_fresh:
  assumes "l \<in> set (started previous current)" and "keyed current"
  shows "map_of previous (liveID l) = None" and "map_of current (liveID l) \<noteq> None"
proof -
  from assms(1) show "map_of previous (liveID l) = None"
    by (simp add: started_def)
  from assms(1) obtain k where k: "(k, l) \<in> set current"
    by (auto simp: started_def)
  with assms(2) have "liveID l = k"
    by (auto simp: keyed_iff)
  with k have "liveID l \<in> fst ` set current"
    by force
  then show "map_of current (liveID l) \<noteq> None"
    by (simp add: map_of_None_iff)
qed

lemma ended_gone:
  assumes "l \<in> set (ended previous current)"
  shows "l \<in> snd ` set previous" and "map_of current (liveID l) = None"
  using assms by (auto simp: ended_def)

lemma turn_tasks:
  assumes "runThrice (fetchLiveList_op upstream) (st\<lparr>newList := []\<rparr>) = Some (None, st1, log)"
  shows "\<exists>st' es. iteration upstream st = Some (Continue, st') \<and> trace st' = trace st @ es \<and>
     (\<forall>u ident. Go (LiveCutTask u ident) \<in> set es \<longrightarrow>
        map_of (oldList st) ident = None \<and> map_of (oldList st') ident \<noteq> None) \<and>
     (\<forall>l. Go (SummaryTask l) \<in> set es \<longrightarrow>
        l \<in> snd ` set (oldList st) \<and> map_of (oldList st') (liveID l) = None)"
proof -
  let ?d = "diff_events (oldList st) (newList st1)"
  let ?es = "map Retry log @ ?d @ [SleepFor 20]"
  from iteration_continues [OF assms] obtain st' where
    st': "iteration upstream st = Some (Continue, st')" "oldList st' = newList st1"
      "trace st' = trace st @ ?es"
    by blast
  have k: "keyed (newList st1)"
    by (rule fetched_keyed [OF assms])
  have 1: "\<forall>u ident. Go (LiveCutTask u ident) \<in> set ?es \<longrightarrow>
        map_of (oldList st) ident = None \<and> map_of (oldList st') ident \<noteq> None"
  proof (intro allI impI)
    fix u ident
    assume "Go (LiveCutTask u ident) \<in> set ?es"
    then have "Go (LiveCutTask u ident) \<in> set ?d"
      by (simp only: Go_in_turn)
    then obtain l where l: "l \<in> set (started (oldList st) (newList st1))" "ident = liveID l"
      by (auto simp: cut_spawned_by_diff)
    from started_fresh [OF l(1) k] l(2) st'(2)
    show "map_of (oldList st) ident = None \<and> map_of (oldList st') ident \<noteq> None"
      by simp
  qed
  have 2: "\<forall>l. Go (SummaryTask l) \<in> set ?es \<longrightarrow>
        l \<in> snd ` set (oldList st) \<and> map_of (oldList st') (liveID l) = None"
  proof (intro allI impI)
    fix l
    assume "Go (SummaryTask l) \<in> set ?es"
    then have "Go (SummaryTask l) \<in> set ?d"
      by (simp only: Go_in_turn)
    then have "l \<in> set (ended (oldList st) (newList st1))"
      by (simp add: summary_spawned_by_diff)
    from ended_gone [OF this] st'(2)
    show "l \<in> snd ` set (oldList st) \<and> map_of (oldList st') (liveID l) = None"
      by simp
  qed
  show ?thesis
    by (rule exI [of _ st'], rule exI [of _ ?es]) (intro conjI st'(1,3) 1 2)
qed

text \<open>
  C9, as the code has it. When the closure of the snapshot fetch fails three times in a
  row, the turn logs and \<^verbatim>\<open>main\<close> returns: the polling loop ends there, without a
  write or a task. When the three attempts of a cut-number task fail, the task only
  logs and ends after exactly 3 calls; it writes nothing and starts nothing, so this
  task leaves the cut number as inserted. The same holds for a summary task and the
  duration. A turn starts a cut-number task only for an id that the stored snapshot
  lacks and the fetched one has, and a summary task only for a session of the stored
  snapshot whose id the fetched one lacks: a session gets no further task while it
  stays listed, or while it stays away. Nothing more is promised: an id that leaves the
  listing and comes back is handled as started again.
\<close>

theorem exhausted_retries:
  "(fetchLiveList_op upstream (st\<lparr>newList := []\<rparr>) = Some (Some e1, s1) \<and>
    fetchLiveList_op upstream s1 = Some (Some e2, s2) \<and>
    fetchLiveList_op upstream s2 = Some (Some e3, s3) \<and> \<not> cancelled i \<longrightarrow>
      (\<exists>st' es. iteration upstream st = Some (Returned, st') \<and>
         poll_loop upstream cancelled i st = Some st' \<and>
         oldList st' = oldList st \<and> trace st' = trace st @ es \<and>
         list_all (\<lambda>e. \<not> writes e \<and> \<not> spawns e) es \<and> last es = Log TooManyListErrors)) \<and>
   ((\<forall>k<3. snd (fetchLiveCut (cutinfo k) u ident) \<noteq> None) \<longrightarrow>
      (\<exists>log. liveCutTask cutinfo u ident = Some (map Retry log @ [Log (CutAbandoned u ident)]) \<and>
         invocations log = 3 \<and>
         list_all (\<lambda>e. \<not> writes e \<and> \<not> spawns e) (map Retry log @ [Log (CutAbandoned u ident)]))) \<and>
   ((\<forall>k<3. snd (lib k (liveID l)) \<noteq> None) \<longrightarrow>
      (\<exists>log. summaryTask lib l =
           Some (SleepFor 10 # map Retry log @ [Log (SummaryAbandoned l), PoolPut l]) \<and>
         invocations log = 3 \<and>
         list_all (\<lambda>e. \<not> writes e \<and> \<not> spawns e)
           (SleepFor 10 # map Retry log @ [Log (SummaryAbandoned l), PoolPut l]))) \<and>
   (runThrice (fetchLiveList_op feed) (st0\<lparr>newList := []\<rparr>) = Some (None, st1, log0) \<longrightarrow>
      (\<exists>st' es. iteration feed st0 = Some (Continue, st') \<and> trace st' = trace st0 @ es \<and>
         (\<forall>u' ident'. Go (LiveCutTask u' ident') \<in> set es \<longrightarrow>
            map_of (oldList st0) ident' = None \<and> map_of (oldList st') ident' \<noteq> None) \<and>
         (\<forall>l'. Go (SummaryTask l') \<in> set es \<longrightarrow>
            l' \<in> snd ` set (oldList st0) \<and> map_of (oldList st') (liveID l') = None)))"
proof (intro conjI impI)
  assume a: "fetchLiveList_op upstream (st\<lparr>newList := []\<rparr>) = Some (Some e1, s1) \<and>
    fetchLiveList_op upstream s1 = Some (Some e2, s2) \<and>
    fetchLiveList_op upstream s2 = Some (Some e3, s3) \<and> \<not> cancelled i"
  let ?es = "map Retry [Invoke, LogPrintf e1, Sleep 10, Invoke, LogPrintf e2, Sleep 10,
          Invoke, LogPrintf e3, Sleep 10] @ [Log TooManyListErrors]"
  let ?st = "s3\<lparr>trace := trace st @ ?es\<rparr>"
  from a have f: "fetchLiveList_op upstream (st\<lparr>newList := []\<rparr>) = Some (Some e1, s1)"
    "fetchLiveList_op upstream s1 = Some (Some e2, s2)"
    "fetchLiveList_op upstream s2 = Some (Some e3, s3)"
    by simp_all
  have it: "iteration upstream st = Some (Returned, ?st)" and old: "oldList s3 = oldList st"
    by (rule fetch_fatal [OF f])+
  from a it have "poll_loop upstream cancelled i st = Some ?st"
    by (simp add: poll_loop_unfold)
  with it old show "\<exists>st' es. iteration upstream st = Some (Returned, st') \<and>
         poll_loop upstream cancelled i st = Some st' \<and>
         oldList st' = oldList st \<and> trace st' = trace st @ es \<and>
         list_all (\<lambda>e. \<not> writes e \<and> \<not> spawns e) es \<and> last es = Log TooManyListErrors"
    by (intro exI [of _ ?st] exI [of _ ?es]) simp
next
  assume "\<forall>k<3. snd (fetchLiveCut (cutinfo k) u ident) \<noteq> None"
  from cut_abandoned [of cutinfo u ident, OF this] obtain log where
    "liveCutTask cutinfo u ident = Some (map Retry log @ [Log (CutAbandoned u ident)])" "invocations log = 3"
    by blast
  then show "\<exists>log. liveCutTask cutinfo u ident = Some (map Retry log @ [Log (CutAbandoned u ident)]) \<and>
         invocations log = 3 \<and>
         list_all (\<lambda>e. \<not> writes e \<and> \<not> spawns e) (map Retry log @ [Log (CutAbandoned u ident)])"
    by (intro exI [of _ log]) (simp add: list_all_quiet_retry)
next
  assume "\<forall>k<3. snd (lib k (liveID l)) \<noteq> None"
  from summary_abandoned [of lib l, OF this] obtain log where
    "summaryTask lib l =
       Some (SleepFor 10 # map Retry log @ [Log (SummaryAbandoned l), PoolPut l])"
    "invocations log = 3"
    by blast
  then show "\<exists>log. summaryTask lib l =
           Some (SleepFor 10 # map Retry log @ [Log (SummaryAbandoned l), PoolPut l]) \<and>
         invocations log = 3 \<and>
         list_all (\<lambda>e. \<not> writes e \<and> \<not> spawns e)
           (SleepFor 10 # map Retry log @ [Log (SummaryAbandoned l), PoolPut l])"
    by (intro exI [of _ log]) (simp add: list_all_quiet_retry)
next
  assume "runThrice (fetchLiveList_op feed) (st0\<lparr>newList := []\<rparr>) = Some (None, st1, log0)"
  from turn_tasks [OF this]
  show "\<exists>st' es. iteration feed st0 = Some (Continue, st') \<and> trace st' = trace st0 @ es \<and>
         (\<forall>u' ident'. Go (LiveCutTask u' ident') \<in> set es \<longrightarrow>
            map_of (oldList st0) ident' = None \<and> map_of (oldList st') ident' \<noteq> None) \<and>
         (\<forall>l'. Go (SummaryTask l') \<in> set es \<longrightarrow>
            l' \<in> snd ` set (oldList st0) \<and> map_of (oldList st') (liveID l') = None)" .
qed

theorem exhausted_retries_witness:
  "(\<exists>st'. iteration down watch_state = Some (Returned, st') \<and>
      poll_loop down never 0 watch_state = Some st' \<and>
      oldList st' = [(''L0'', session ''L0'' 7)]) \<and>
   (\<exists>log. liveCutTask cut_down 646973 ''L1'' =
      Some (map Retry log @ [Log (CutAbandoned 646973 ''L1'')]) \<and> invocations log = 3) \<and>
   (\<exists>log. summaryTask summary_down (session ''A'' 646973) =
      Some (SleepFor 10 # map Retry log @
        [Log (SummaryAbandoned (session ''A'' 646973)), PoolPut (session ''A'' 646973)]) \<and>
      invocations log = 3) \<and>
   (\<exists>st'. iteration (\<lambda>n. second_page) watch_state = Some (Continue, st') \<and>
      Go (LiveCutTask 646973 ''L1'') \<in> set (trace st') \<and>
      map_of (oldList watch_state) ''L1'' = None \<and> map_of (oldList st') ''L1'' \<noteq> None)"
proof -
  have c: "\<forall>k<3. snd (fetchLiveCut (cut_down k) 646973 ''L1'') \<noteq> None"
    by (simp add: fetchLiveCut_def fetchLiveCut_body_def cut_down_def)
  have s: "\<forall>k<3. snd (summary_down k (liveID (session ''A'' 646973))) \<noteq> None"
    by (simp add: summary_down_def)
  have n: "\<not> never 0"
    by (simp add: never_def)
  have t: "trace watch_state = []"
    by (simp add: watch_state_def)
  have ev: "iteration (\<lambda>n. second_page) watch_state =
      Some (Continue,
        \<lparr>oldList = [(''L1'', session ''L1'' 646973), (''L2'', session ''L2'' 7)],
         newList = [(''L1'', session ''L1'' 646973), (''L2'', session ''L2'' 7)],
         livePool = [], listCalls = 1,
         trace = [Retry Invoke, Println (session ''L1'' 646973), Insert (session ''L1'' 646973),
           Go (LiveCutTask 646973 ''L1''), SleepFor 20]\<rparr>)"
    by (simp add: iteration_def watch_fetch Let_def)
       (simp add: diff_loops_def started_body_def ended_body_def emit_def watch_state_def
          session_def)
  note T = exhausted_retries
    [of down watch_state "FetchLiveListError TransportFailure"
        "watch_state\<lparr>newList := [], listCalls := 1\<rparr>"
        "FetchLiveListError TransportFailure" "watch_state\<lparr>newList := [], listCalls := 2\<rparr>"
        "FetchLiveListError TransportFailure" "watch_state\<lparr>newList := [], listCalls := 3\<rparr>"
        never 0 cut_down 646973 "''L1''" summary_down "session ''A'' 646973"
        "\<lambda>n. second_page" watch_state
        "watch_state\<lparr>newList := [(''L1'', session ''L1'' 646973), (''L2'', session ''L2'' 7)],
           livePool := [], listCalls := 1\<rparr>" "[Invoke]"]
  from T [THEN conjunct1] n
  have 1: "\<exists>st'. iteration down watch_state = Some (Returned, st') \<and>
      poll_loop down never 0 watch_state = Some st' \<and>
      oldList st' = [(''L0'', session ''L0'' 7)]"
    by (auto simp add: fetch_down watch_state_def)
  from T [THEN conjunct2, THEN conjunct1] c
  have 2: "\<exists>log. liveCutTask cut_down 646973 ''L1'' =
      Some (map Retry log @ [Log (CutAbandoned 646973 ''L1'')]) \<and> invocations log = 3"
    by blast
  from T [THEN conjunct2, THEN conjunct2, THEN conjunct1] s
  have 3: "\<exists>log. summaryTask summary_down (session ''A'' 646973) =
      Some (SleepFor 10 # map Retry log @
        [Log (SummaryAbandoned (session ''A'' 646973)), PoolPut (session ''A'' 646973)]) \<and>
      invocations log = 3"
    by blast
  from T [THEN conjunct2, THEN conjunct2, THEN conjunct2] watch_fetch
  obtain st' es where
    it: "iteration (\<lambda>n. second_page) watch_state = Some (Continue, st')"
    and tr: "trace st' = trace watch_state @ es"
    and cut: "\<forall>u' ident'. Go (LiveCutTask u' ident') \<in> set es \<longrightarrow>
            map_of (oldList watch_state) ident' = None \<and> map_of (oldList st') ident' \<noteq> None"
    by blast
  from it ev have "trace st' =
      [Retry Invoke, Println (session ''L1'' 646973), Insert (session ''L1'' 646973),
       Go (LiveCutTask 646973 ''L1''), SleepFor 20]"
    by auto
  with tr t have g: "Go (LiveCutTask 646973 ''L1'') \<in> set es"
    "Go (LiveCutTask 646973 ''L1'') \<in> set (trace st')"
    by auto
  from cut g(1) have "map_of (oldList watch_state) ''L1'' = None \<and> map_of (oldList st') ''L1'' \<noteq> None"
    by blast
  with it g(2) have 4: "\<exists>st'. iteration (\<lambda>n. second_page) watch_state = Some (Continue, st') \<and>
      Go (LiveCutTask 646973 ''L1'') \<in> set (trace st') \<and>
      map_of (oldList watch_state) ''L1'' = None \<and> map_of (oldList st') ''L1'' \<noteq> None"
    by blast
  from 1 2 3 4 show ?thesis
    by (intro conjI)
qed

text \<open>
  The claim's last part fails on a session that leaves the listing and comes back. Its
  first cut-number task gives up after three failed attempts; two turns later the loop
  inserts the session again and starts a second cut-number task for it, and that task
  writes a cut number when the upstream answers.
\<close>

theorem exhausted_retries_counterexample:
  "liveCutTask cut_down 646973 ''L1'' =
     Some [Retry Invoke, Retry (LogPrintf (FetchLiveCutError TransportFailure)), Retry (Sleep 10),
       Retry Invoke, Retry (LogPrintf (FetchLiveCutError TransportFailure)), Retry (Sleep 10),
       Retry Invoke, Retry (LogPrintf (FetchLiveCutError TransportFailure)), Retry (Sleep 10),
       Log (CutAbandoned 646973 ''L1'')] \<and>
   map_option trace (poll_loop flapping (cancelled_from 3) 0 first_state) =
     Some [Retry Invoke, Println (session ''L1'' 646973), Insert (session ''L1'' 646973),
       Go (LiveCutTask 646973 ''L1''), SleepFor 20,
       Retry Invoke, Go (SummaryTask (session ''L1'' 646973)), SleepFor 20,
       Retry Invoke, Println (session ''L1'' 646973), Insert (session ''L1'' 646973),
       Go (LiveCutTask 646973 ''L1''), SleepFor 20] \<and>
   liveCutTask cut_up 646973 ''L1'' = Some [Retry Invoke, UpdateLiveCutNum ''L1'' 12345]"
proof -
  have 1: "liveCutTask cut_down 646973 ''L1'' =
     Some [Retry Invoke, Retry (LogPrintf (FetchLiveCutError TransportFailure)), Retry (Sleep 10),
       Retry Invoke, Retry (LogPrintf (FetchLiveCutError TransportFailure)), Retry (Sleep 10),
       Retry Invoke, Retry (LogPrintf (FetchLiveCutError TransportFailure)), Retry (Sleep 10),
       Log (CutAbandoned 646973 ''L1'')]"
    by (simp add: liveCutTask_def runThrice_def runThrice_loop.simps fetchLiveCut_op_def
          fetchLiveCut_def fetchLiveCut_body_def cut_down_def)
  have 3: "liveCutTask cut_up 646973 ''L1'' = Some [Retry Invoke, UpdateLiveCutNum ''L1'' 12345]"
    by (simp add: liveCutTask_def runThrice_def runThrice_loop.simps fetchLiveCut_op_def
          fetchLiveCut_def fetchLiveCut_body_def cut_up_def cut_info_def json_reads digit_reads)
  have f: "fetchLiveList (flapping n) pool =
      (if n = 1 then Some ([10000], pool, [], None)
       else Some ([10000], snd (livePool_Get pool),
         [(''L1'', session ''L1'' 646973)], None))" for n pool
    by (cases pool)
       (simp_all add: fetchLiveList_def escalate_unfold flapping_def read_list_page
          json_reads fill_def room_def session_def new_live_def)
  have t1: "iteration flapping first_state =
      Some (Continue,
        \<lparr>oldList = [(''L1'', session ''L1'' 646973)],
         newList = [(''L1'', session ''L1'' 646973)], livePool = [], listCalls = 1,
         trace = [Retry Invoke, Println (session ''L1'' 646973), Insert (session ''L1'' 646973),
           Go (LiveCutTask 646973 ''L1''), SleepFor 20]\<rparr>)"
    by (simp add: iteration_def runThrice_def runThrice_loop.simps fetchLiveList_op_def f
          first_state_def Let_def diff_loops_def started_body_def ended_body_def emit_def)
       (simp add: session_def)
  have t2: "iteration flapping
        \<lparr>oldList = [(''L1'', session ''L1'' 646973)],
         newList = [(''L1'', session ''L1'' 646973)], livePool = [], listCalls = 1,
         trace = [Retry Invoke, Println (session ''L1'' 646973), Insert (session ''L1'' 646973),
           Go (LiveCutTask 646973 ''L1''), SleepFor 20]\<rparr> =
      Some (Continue,
        \<lparr>oldList = [], newList = [], livePool = [], listCalls = 2,
         trace = [Retry Invoke, Println (session ''L1'' 646973), Insert (session ''L1'' 646973),
           Go (LiveCutTask 646973 ''L1''), SleepFor 20,
           Retry Invoke, Go (SummaryTask (session ''L1'' 646973)), SleepFor 20]\<rparr>)"
    by (simp add: iteration_def runThrice_def runThrice_loop.simps fetchLiveList_op_def f
          Let_def diff_loops_def started_body_def ended_body_def emit_def)
       (simp add: session_def)
  have t3: "iteration flapping
        \<lparr>oldList = [], newList = [], livePool = [], listCalls = 2,
         trace = [Retry Invoke, Println (session ''L1'' 646973), Insert (session ''L1'' 646973),
           Go (LiveCutTask 646973 ''L1''), SleepFor 20,
           Retry Invoke, Go (SummaryTask (session ''L1'' 646973)), SleepFor 20]\<rparr> =
      Some (Continue,
        \<lparr>oldList = [(''L1'', session ''L1'' 646973)],
         newList = [(''L1'', session ''L1'' 646973)], livePool = [], listCalls = 3,
         trace = [Retry Invoke, Println (session ''L1'' 646973), Insert (session ''L1'' 646973),
           Go (LiveCutTask 646973 ''L1''), SleepFor 20,
           Retry Invoke, Go (SummaryTask (session ''L1'' 646973)), SleepFor 20,
           Retry Invoke, Println (session ''L1'' 646973), Insert (session ''L1'' 646973),
           Go (LiveCutTask 646973 ''L1''), SleepFor 20]\<rparr>)"
    by (simp add: iteration_def runThrice_def runThrice_loop.simps fetchLiveList_op_def f
          Let_def diff_loops_def started_body_def ended_body_def emit_def)
       (simp add: session_def)
  have c: "\<not> cancelled_from 3 0" "\<not> cancelled_from 3 (Suc 0)" "\<not> cancelled_from 3 (Suc (Suc 0))"
    "cancelled_from 3 (Suc (Suc (Suc 0)))"
    by (simp_all add: cancelled_from_def)
  have 2: "map_option trace (poll_loop flapping (cancelled_from 3) 0 first_state) =
     Some [Retry Invoke, Println (session ''L1'' 646973), Insert (session ''L1'' 646973),
       Go (LiveCutTask 646973 ''L1''), SleepFor 20,
       Retry Invoke, Go (SummaryTask (session ''L1'' 646973)), SleepFor 20,
       Retry Invoke, Println (session ''L1'' 646973), Insert (session ''L1'' 646973),
       Go (LiveCutTask 646973 ''L1''), SleepFor 20]"
    apply (subst poll_loop.simps)
    apply (simp only: c if_False t1 option.case prod.case status.case)
    apply (subst poll_loop.simps)
    apply (simp only: c if_False t2 option.case prod.case status.case)
    apply (subst poll_loop.simps)
    apply (simp only: c if_False t3 option.case prod.case status.case)
    apply (subst poll_loop.simps)
    apply (simp add: c)
    done
  from 1 2 3 show ?thesis by simp
qed

end
